theory Spec2Isabelle
  imports Main "HOL-Library.Word"
begin

section \<open>Coupon application: data model\<close>

text \<open>
  The application (\<^verbatim>\<open>app.py\<close>) is a Flask program over two SQLAlchemy tables.
  Each request handler is modelled as a function from the environment of the request
  (clock, entropy) and the stored state to a response and the stored state afterwards.

  A Python \<^verbatim>\<open>str\<close> is a sequence of Unicode code points, and so it is here: a list of
  numbers. The literals of the source are written as ASCII strings and turned into code
  points by \<open>lit\<close>; the texts of error messages, which are only ever such literals, stay
  ASCII strings.

  A calendar date is its proleptic ordinal (\<^verbatim>\<open>date.toordinal()\<close>), so that Python's
  comparison of dates is the order of numbers; a naive \<^verbatim>\<open>datetime\<close> is a number of
  microseconds.
\<close>

type_synonym codepoint = nat
type_synonym str = "codepoint list"
type_synonym date = int
type_synonym datetime = int
type_synonym byte = "8 word"

definition lit :: "string \<Rightarrow> str" where
  "lit s = map of_char s"

text \<open>
  \<^verbatim>\<open>class Offer(db.Model)\<close>. The column \<^verbatim>\<open>id\<close> is \<open>offer_pk\<close> here and \<open>pk\<close> in the coupon
  table (\<open>id\<close> is the identity function of HOL), and the fields of an offer carry the
  prefix \<open>offer_\<close> to tell them from the coupon's. A primary key is unset until the row
  is inserted.
\<close>

record Offer =
  offer_pk :: "nat option"
  offer_restaurant :: str
  offer_description :: str
  offer_expires :: date
  offer_created_at :: "datetime option"

text \<open>
  \<^verbatim>\<open>class CouponCode(db.Model)\<close>. The attribute \<^verbatim>\<open>code\<close> of the Python object may be
  \<^verbatim>\<open>None\<close>; the column is \<^verbatim>\<open>unique=True, nullable=False\<close>, which the store checks on
  insertion (\<open>insert_coupon\<close> below).
\<close>

record CouponCode =
  pk :: "nat option"
  offer_id :: "nat option"
  restaurant :: str
  description :: str
  code :: "str option"
  expires :: date
  created_at :: "datetime option"
  redeemed_at :: "datetime option"
  redeemed_by :: "str option"

text \<open>The stored state: the rows of both tables, in insertion order.\<close>

record db =
  offers :: "Offer list"
  coupons :: "CouponCode list"

text \<open>
  What a request reads from outside the store: \<^verbatim>\<open>date.today()\<close>, \<^verbatim>\<open>datetime.utcnow()\<close>,
  the bytes that \<^verbatim>\<open>os.urandom\<close> will deliver (an infinite stream, read front to back),
  and what the libraries compute that the handlers only pass on: Flask's \<^verbatim>\<open>url_for\<close> on
  the three endpoints the handlers name, \<^verbatim>\<open>date.isoformat\<close>,
  \<^verbatim>\<open>datetime.strptime(s, "%Y-%m-%d").date()\<close> (\<open>None\<close> where it raises \<^verbatim>\<open>ValueError\<close>), and
  the uppercase mapping of the Unicode database for the code points beyond ASCII
  (one to three code points each, as \<^verbatim>\<open>str.upper\<close> uses it).
\<close>

datatype endpoint = Home | ViewCoupon str | CouponQr str

record env =
  today :: date
  utcnow :: datetime
  urandom :: "nat \<Rightarrow> byte"
  url_for :: "endpoint \<Rightarrow> str"
  isoformat :: "date \<Rightarrow> str"
  strptime :: "str \<Rightarrow> date option"
  unicode_upper :: "codepoint \<Rightarrow> str"

text \<open>
  Exceptions that leave a handler: \<^verbatim>\<open>get_or_404\<close> aborts with \<open>NotFound\<close>, a missing form
  key with \<open>BadRequest\<close>, the store refuses a row with \<open>IntegrityError\<close>, and
  \<^verbatim>\<open>sqlite3\<close> refuses to bind an integer beyond 64 bits with \<open>OverflowError\<close>;
  \<open>ValueError\<close> comes from \<^verbatim>\<open>secrets\<close> and \<open>BuildError\<close> from \<^verbatim>\<open>url_for\<close>.
\<close>

datatype error =
  NotFound | BadRequest | IntegrityError | OverflowError | ValueError | BuildError

text \<open>Response bodies, and a response with its HTTP status.\<close>

datatype json =
    JError string
  | JRedeemed "str option"
  | JClaimed str str str str

datatype body = Json json | Text string | Redirect str

type_synonym response = "body \<times> nat"

text \<open>An exception that no handler catches ends the request with status 500.\<close>

definition http_status :: "error + response \<Rightarrow> nat" where
  "http_status r =
     (case r of
        Inl NotFound \<Rightarrow> 404
      | Inl BadRequest \<Rightarrow> 400
      | Inl _ \<Rightarrow> 500
      | Inr (_, st) \<Rightarrow> st)"

section \<open>String methods of the Python runtime\<close>

text \<open>
  \<^verbatim>\<open>str.upper\<close> maps every code point on its own: the letters \<^verbatim>\<open>a\<close> to \<^verbatim>\<open>z\<close> to \<^verbatim>\<open>A\<close> to
  \<^verbatim>\<open>Z\<close>, the rest of ASCII to itself, and a code point beyond ASCII to what the Unicode
  database gives (\<open>tbl\<close>; for instance U+00E9 to U+00C9 and U+00DF to \<^verbatim>\<open>SS\<close>).
\<close>

definition upper_cp :: "(codepoint \<Rightarrow> str) \<Rightarrow> codepoint \<Rightarrow> str" where
  "upper_cp tbl c =
     (if 97 \<le> c \<and> c \<le> 122 then [c - 32] else if c < 128 then [c] else tbl c)"

definition upper :: "(codepoint \<Rightarrow> str) \<Rightarrow> str \<Rightarrow> str" where
  "upper tbl s = concat (map (upper_cp tbl) s)"

text \<open>
  \<^verbatim>\<open>str.isspace\<close> on one code point: U+0009 to U+000D, U+001C to U+0020, U+0085, U+00A0,
  U+1680, U+2000 to U+200A, U+2028, U+2029, U+202F, U+205F and U+3000.
\<close>

definition isspace :: "codepoint \<Rightarrow> bool" where
  "isspace c =
     ((9 \<le> c \<and> c \<le> 13) \<or> (28 \<le> c \<and> c \<le> 32) \<or> c = 133 \<or> c = 160 \<or> c = 5760 \<or>
      (8192 \<le> c \<and> c \<le> 8202) \<or> c = 8232 \<or> c = 8233 \<or> c = 8239 \<or> c = 8287 \<or>
      c = 12288)"

definition strip :: "str \<Rightarrow> str" where
  "strip s = rev (dropWhile isspace (rev (dropWhile isspace s)))"

text \<open>\<^verbatim>\<open>bytes.hex()\<close>: two lowercase hexadecimal digits per byte.\<close>

definition hexdigit :: "nat \<Rightarrow> codepoint" where
  "hexdigit n = lit ''0123456789abcdef'' ! n"

definition hex :: "byte list \<Rightarrow> str" where
  "hex bs = concat (map (\<lambda>b. [hexdigit (unat b div 16), hexdigit (unat b mod 16)]) bs)"

section \<open>Helpers\<close>

text \<open>
  \<^verbatim>\<open>secrets.token_hex(nbytes)\<close> reads \<open>nbytes\<close> bytes of entropy and renders them in
  hexadecimal; a negative count raises \<^verbatim>\<open>ValueError\<close>. The result comes with the rest of
  the entropy stream.
\<close>

definition token_hex :: "int \<Rightarrow> (nat \<Rightarrow> byte) \<Rightarrow> error + (str \<times> (nat \<Rightarrow> byte))" where
  "token_hex nbytes rng =
     (if nbytes < 0 then Inl ValueError
      else Inr (hex (map rng [0..<nat nbytes]), \<lambda>i. rng (i + nat nbytes)))"

text \<open>
  \<^verbatim>\<open>
  def generate_code(prefix="COUP", length=8):
      token = secrets.token_hex(length // 2).upper()[:length]
      return f"{prefix}-{token}"
  \<close>
  Python's \<^verbatim>\<open>//\<close> is floor division, as \<open>div\<close> on \<open>int\<close> is. The slice \<^verbatim>\<open>[:length]\<close> is only
  reached with \<open>0 \<le> length\<close> (\<open>len\<close> below), where it keeps the first \<open>len\<close> characters.
  The first argument is the table that \<^verbatim>\<open>upper\<close> reads.
\<close>

definition generate_code ::
  "(codepoint \<Rightarrow> str) \<Rightarrow> str \<Rightarrow> int \<Rightarrow> (nat \<Rightarrow> byte) \<Rightarrow> error + (str \<times> (nat \<Rightarrow> byte))" where
  "generate_code tbl prefix len rng =
     (case token_hex (len div 2) rng of
        Inl e \<Rightarrow> Inl e
      | Inr (h, rng') \<Rightarrow>
          let token = take (nat len) (upper tbl h)
          in Inr (prefix @ lit ''-'' @ token, rng'))"

section \<open>The store\<close>

text \<open>
  \<^verbatim>\<open>Offer.query.get(offer_id)\<close>. The route \<^verbatim>\<open>/claim/<int:offer_id>\<close> accepts every
  non-negative integer, and \<^verbatim>\<open>sqlite3\<close> binds integers below \<open>2 ^ 63\<close> only: for a larger
  one the lookup raises \<^verbatim>\<open>OverflowError\<close>.
\<close>

definition get_offer :: "db \<Rightarrow> nat \<Rightarrow> error + Offer option" where
  "get_offer d i =
     (if 2 ^ 63 \<le> i then Inl OverflowError
      else Inr (find (\<lambda>ofr. offer_pk ofr = Some i) (offers d)))"

text \<open>\<^verbatim>\<open>CouponCode.query.filter_by(code=k).first()\<close>\<close>

definition by_code :: "db \<Rightarrow> str \<Rightarrow> CouponCode option" where
  "by_code d k = find (\<lambda>c. code c = Some k) (coupons d)"

text \<open>An integer primary key is assigned on insertion: one more than the largest in use.\<close>

definition next_pk :: "nat option list \<Rightarrow> nat" where
  "next_pk ks = Suc (fold (\<lambda>k m. case k of None \<Rightarrow> m | Some n \<Rightarrow> max n m) ks 0)"

text \<open>
  \<^verbatim>\<open>db.session.add(offer); db.session.commit()\<close>: the row gets its key and the column
  default \<^verbatim>\<open>created_at = datetime.utcnow\<close>.
\<close>

definition insert_offer :: "env \<Rightarrow> Offer \<Rightarrow> db \<Rightarrow> db" where
  "insert_offer e ofr d =
     (let row = ofr\<lparr>offer_pk := Some (next_pk (map offer_pk (offers d))),
                      offer_created_at := Some (utcnow e)\<rparr>
      in d\<lparr>offers := offers d @ [row]\<rparr>)"

text \<open>
  \<^verbatim>\<open>db.session.add(coupon); db.session.commit()\<close>: the store refuses a row whose \<^verbatim>\<open>code\<close>
  is null (\<^verbatim>\<open>nullable=False\<close>) or already stored (\<^verbatim>\<open>unique=True\<close>) and is left as it was;
  otherwise the row is appended with its key and \<^verbatim>\<open>created_at\<close>.
\<close>

definition insert_coupon :: "env \<Rightarrow> CouponCode \<Rightarrow> db \<Rightarrow> error + (CouponCode \<times> db)" where
  "insert_coupon e c d =
     (case code c of
        None \<Rightarrow> Inl IntegrityError
      | Some k \<Rightarrow>
          if by_code d k \<noteq> None then Inl IntegrityError
          else
            let row = c\<lparr>pk := Some (next_pk (map pk (coupons d))),
                          created_at := Some (utcnow e)\<rparr>
            in Inr (row, d\<lparr>coupons := coupons d @ [row]\<rparr>))"

text \<open>\<^verbatim>\<open>db.session.commit()\<close> of a changed, loaded row: written back under its primary key.\<close>

definition commit_coupon :: "CouponCode \<Rightarrow> db \<Rightarrow> db" where
  "commit_coupon c d = d\<lparr>coupons := map (\<lambda>r. if pk r = pk c then c else r) (coupons d)\<rparr>"

section \<open>Model methods\<close>

text \<open>
  \<^verbatim>\<open>
  def is_expired(self): return date.today() > self.expires
  def is_redeemed(self): return self.redeemed_at is not None
  \<close>
\<close>

definition is_expired :: "env \<Rightarrow> CouponCode \<Rightarrow> bool" where
  "is_expired e c = (today e > expires c)"

definition is_redeemed :: "CouponCode \<Rightarrow> bool" where
  "is_redeemed c = (redeemed_at c \<noteq> None)"

section \<open>Routes\<close>

subsection \<open>\<^verbatim>\<open>POST /create_offer\<close>\<close>

record offer_form =
  form_restaurant :: "str option"
  form_description :: "str option"
  form_expires :: "str option"

definition create_offer :: "env \<Rightarrow> db \<Rightarrow> offer_form \<Rightarrow> (error + response) \<times> db" where
  "create_offer e d f =
     (case (form_restaurant f, form_description f, form_expires f) of
        (Some r, Some ds, Some ex) \<Rightarrow>
          let restaurant' = strip r; description' = strip ds; expires_str = strip ex in
          if \<not> (restaurant' \<noteq> [] \<and> description' \<noteq> [] \<and> expires_str \<noteq> [])
          then (Inr (Text ''All fields required'', 400), d)
          else
            (case strptime e expires_str of
               None \<Rightarrow> (Inr (Text ''Date must be YYYY-MM-DD'', 400), d)
             | Some expires' \<Rightarrow>
                 let offer = \<lparr>offer_pk = None, offer_restaurant = restaurant',
                              offer_description = description', offer_expires = expires',
                              offer_created_at = None\<rparr>
                 in (Inr (Redirect (url_for e Home), 302), insert_offer e offer d))
      | _ \<Rightarrow> (Inl BadRequest, d))"

subsection \<open>\<^verbatim>\<open>POST /claim/<int:offer_id>\<close>\<close>

text \<open>
  The loop
  \<^verbatim>\<open>
  code = None
  for _ in range(10):
      candidate = generate_code(prefix=prefix, length=10)
      if not CouponCode.query.filter_by(code=candidate).first():
          code = candidate
          break
  \<close>
  with the number of rounds left as its first argument; the result is the value of
  \<^verbatim>\<open>code\<close> after the loop.
\<close>

fun pick_code ::
  "nat \<Rightarrow> (codepoint \<Rightarrow> str) \<Rightarrow> str \<Rightarrow> db \<Rightarrow> (nat \<Rightarrow> byte) \<Rightarrow> error + str option" where
  "pick_code 0 tbl prefix d rng = Inr None"
| "pick_code (Suc n) tbl prefix d rng =
     (case generate_code tbl prefix 10 rng of
        Inl err \<Rightarrow> Inl err
      | Inr (candidate, rng') \<Rightarrow>
          if by_code d candidate = None then Inr (Some candidate)
          else pick_code n tbl prefix d rng')"

definition claim_offer :: "env \<Rightarrow> db \<Rightarrow> nat \<Rightarrow> (error + response) \<times> db" where
  "claim_offer e d oid =
     (case get_offer d oid of
        Inl err \<Rightarrow> (Inl err, d)
      | Inr None \<Rightarrow> (Inl NotFound, d)
      | Inr (Some offer) \<Rightarrow>
          let prefix = upper (unicode_upper e) (take 4 (offer_restaurant offer)) in
          (case pick_code 10 (unicode_upper e) prefix d (urandom e) of
             Inl err \<Rightarrow> (Inl err, d)
           | Inr code' \<Rightarrow>
               let coupon = \<lparr>pk = None, offer_id = offer_pk offer,
                             restaurant = offer_restaurant offer,
                             description = offer_description offer,
                             code = code', expires = offer_expires offer,
                             created_at = None, redeemed_at = None, redeemed_by = None\<rparr>
               in
               (case insert_coupon e coupon d of
                  Inl err \<Rightarrow> (Inl err, d)
                | Inr (coupon', d') \<Rightarrow>
                    (case code coupon' of
                       None \<Rightarrow> (Inl BuildError, d')
                     | Some k \<Rightarrow>
                         (Inr (Json (JClaimed k (url_for e (ViewCoupon k))
                                       (url_for e (CouponQr k))
                                       (isoformat e (expires coupon'))), 200), d')))))"

subsection \<open>\<^verbatim>\<open>POST /redeem\<close>\<close>

record redeem_form =
  form_code :: "str option"
  form_redeemed_by :: "str option"

text \<open>\<^verbatim>\<open>(request.form.get(key) or "")\<close>\<close>

definition or_empty :: "str option \<Rightarrow> str" where
  "or_empty v = (case v of None \<Rightarrow> [] | Some s \<Rightarrow> s)"

definition redeem :: "env \<Rightarrow> db \<Rightarrow> redeem_form \<Rightarrow> response \<times> db" where
  "redeem e d f =
     (let code' = upper (unicode_upper e) (strip (or_empty (form_code f)));
          who = strip (or_empty (form_redeemed_by f))
      in
      if code' = [] then ((Json (JError ''missing code''), 400), d)
      else
        (case by_code d code' of
           None \<Rightarrow> ((Json (JError ''code not found''), 404), d)
         | Some c \<Rightarrow>
             if is_expired e c then ((Json (JError ''expired''), 410), d)
             else if is_redeemed c then ((Json (JError ''already redeemed''), 409), d)
             else
               let c1 = c\<lparr>redeemed_at := Some (utcnow e)\<rparr>;
                   c2 = (if who \<noteq> [] then c1\<lparr>redeemed_by := Some who\<rparr> else c1)
               in ((Json (JRedeemed (code c2)), 200), commit_coupon c2 d)))"

subsection \<open>Requests in sequence\<close>

text \<open>
  The three handlers above are the only ones that write to the store; the other routes
  (\<^verbatim>\<open>/\<close>, \<^verbatim>\<open>/search\<close>, \<^verbatim>\<open>/coupon/<code>\<close>, \<^verbatim>\<open>/coupon/<code>/qr.png\<close>, the form of
  \<^verbatim>\<open>GET /create_offer\<close>) only read it. A history of the application is a list of
  writing requests, each with the environment it ran in.
\<close>

datatype request = CreateOffer offer_form | ClaimOffer nat | Redeem redeem_form

definition handle :: "env \<Rightarrow> request \<Rightarrow> db \<Rightarrow> (error + response) \<times> db" where
  "handle e rq d =
     (case rq of
        CreateOffer f \<Rightarrow> create_offer e d f
      | ClaimOffer oid \<Rightarrow> claim_offer e d oid
      | Redeem f \<Rightarrow> (case redeem e d f of (resp, d') \<Rightarrow> (Inr resp, d')))"

fun run :: "(env \<times> request) list \<Rightarrow> db \<Rightarrow> db" where
  "run [] d = d"
| "run ((e, rq) # rest) d = run rest (snd (handle e rq d))"

section \<open>Notions used in the statements\<close>

text \<open>
  The codes that \<open>n\<close> successive calls \<^verbatim>\<open>generate_code(prefix=prefix, length=10)\<close> return,
  each call reading on in the entropy stream.
\<close>

fun candidates :: "nat \<Rightarrow> (codepoint \<Rightarrow> str) \<Rightarrow> str \<Rightarrow> (nat \<Rightarrow> byte) \<Rightarrow> str list" where
  "candidates 0 tbl prefix rng = []"
| "candidates (Suc n) tbl prefix rng =
     (case generate_code tbl prefix 10 rng of
        Inl err \<Rightarrow> []
      | Inr (candidate, rng') \<Rightarrow> candidate # candidates n tbl prefix rng')"

text \<open>The row that is stored when an offer is claimed under the code \<open>k\<close>.\<close>

definition issued :: "env \<Rightarrow> Offer \<Rightarrow> db \<Rightarrow> str \<Rightarrow> CouponCode" where
  "issued e ofr d k =
     \<lparr>pk = Some (next_pk (map pk (coupons d))), offer_id = offer_pk ofr,
      restaurant = offer_restaurant ofr, description = offer_description ofr,
      code = Some k, expires = offer_expires ofr, created_at = Some (utcnow e),
      redeemed_at = None, redeemed_by = None\<rparr>"

text \<open>
  The row as a successful redemption in the environment \<open>e\<close> with the form \<open>f\<close> leaves
  it: the timestamp set, and the redeemer's name where the form gives one that is not
  blank.
\<close>

definition stamped :: "env \<Rightarrow> redeem_form \<Rightarrow> CouponCode \<Rightarrow> CouponCode" where
  "stamped e f c =
     (if strip (or_empty (form_redeemed_by f)) \<noteq> []
      then c\<lparr>redeemed_at := Some (utcnow e),
             redeemed_by := Some (strip (or_empty (form_redeemed_by f)))\<rparr>
      else c\<lparr>redeemed_at := Some (utcnow e)\<rparr>)"

text \<open>
  The constraints of the table \<^verbatim>\<open>coupon_code\<close> that the statements rely on: primary keys
  are pairwise distinct (\<^verbatim>\<open>primary_key=True\<close>) and so are codes (\<^verbatim>\<open>unique=True\<close>).
\<close>

definition wf_db :: "db \<Rightarrow> bool" where
  "wf_db d = (distinct (map pk (coupons d)) \<and> distinct (map code (coupons d)))"

text \<open>The normal form under which \<^verbatim>\<open>redeem\<close> looks a submitted code up.\<close>

definition normalized :: "env \<Rightarrow> redeem_form \<Rightarrow> str" where
  "normalized e f = upper (unicode_upper e) (strip (or_empty (form_code f)))"

subsection \<open>Concrete values\<close>

text \<open>
  The offer that the application seeds an empty table with (\<^verbatim>\<open>Chipotle\<close>, \<^verbatim>\<open>Free chips\<close>,
  expiring on 2025-11-05, ordinal 739560), an environment of 2025-11-01 whose entropy is
  the byte \<^verbatim>\<open>0xAB\<close> throughout, and stores built from them. The uppercase table of the
  environment gives the two entries named above and is otherwise the identity.
\<close>

definition chipotle :: Offer where
  "chipotle = \<lparr>offer_pk = Some 1, offer_restaurant = lit ''Chipotle'',
     offer_description = lit ''Free chips'', offer_expires = 739560,
     offer_created_at = Some 0\<rparr>"

definition env_nov1 :: env where
  "env_nov1 = \<lparr>today = 739556, utcnow = 1000, urandom = (\<lambda>i. 0xAB),
     url_for = (\<lambda>ep. case ep of
                  Home \<Rightarrow> lit ''/''
                | ViewCoupon k \<Rightarrow> lit ''/coupon/'' @ k
                | CouponQr k \<Rightarrow> lit ''/coupon/'' @ k @ lit ''/qr.png''),
     isoformat = (\<lambda>dt. if dt = 739560 then lit ''2025-11-05'' else []),
     strptime = (\<lambda>s. if s = lit ''2025-11-05'' then Some 739560 else None),
     unicode_upper = (\<lambda>c. if c = 233 then [201] else if c = 223 then [83, 83] else [c])\<rparr>"

definition db_seeded :: db where
  "db_seeded = \<lparr>offers = [chipotle], coupons = []\<rparr>"

definition coupon_ab :: CouponCode where
  "coupon_ab = \<lparr>pk = Some 1, offer_id = Some 1, restaurant = lit ''Chipotle'',
     description = lit ''Free chips'', code = Some (lit ''CHIP-ABABABABAB''), expires = 739560,
     created_at = Some 1000, redeemed_at = None, redeemed_by = None\<rparr>"

definition db_claimed :: db where
  "db_claimed = \<lparr>offers = [chipotle], coupons = [coupon_ab]\<rparr>"

text \<open>
  The form spells the code in lower case, with a blank before it and a no-break space
  (U+00A0) after it.
\<close>

definition form_ab :: redeem_form where
  "form_ab = \<lparr>form_code = Some (lit '' chip-ababababab'' @ [160]),
     form_redeemed_by = Some (lit ''Alice'')\<rparr>"

text \<open>
  The same environment with the entropy byte \<^verbatim>\<open>0xCD\<close>, and with two rounds of \<^verbatim>\<open>0xAB\<close>
  before \<^verbatim>\<open>0xCD\<close>; the coupon a second claim stores under them, and the store after the
  first coupon was redeemed by Alice.
\<close>

definition env_cd :: env where
  "env_cd = env_nov1\<lparr>urandom := (\<lambda>i. 0xCD)\<rparr>"

definition env_ab_ab_cd :: env where
  "env_ab_ab_cd = env_nov1\<lparr>urandom := (\<lambda>i. if i < 10 then 0xAB else 0xCD)\<rparr>"

definition coupon_cd :: CouponCode where
  "coupon_cd = \<lparr>pk = Some 2, offer_id = Some 1, restaurant = lit ''Chipotle'',
     description = lit ''Free chips'', code = Some (lit ''CHIP-CDCDCDCDCD''), expires = 739560,
     created_at = Some 1000, redeemed_at = None, redeemed_by = None\<rparr>"

definition db_two :: db where
  "db_two = \<lparr>offers = [chipotle], coupons = [coupon_ab, coupon_cd]\<rparr>"

definition db_redeemed :: db where
  "db_redeemed = \<lparr>offers = [chipotle],
     coupons = [coupon_ab\<lparr>redeemed_at := Some 1000, redeemed_by := Some (lit ''Alice'')\<rparr>]\<rparr>"

section \<open>Auxiliary facts\<close>

lemma find_Some_holds: "find P xs = Some x \<Longrightarrow> P x \<and> x \<in> set xs"
  by (induction xs) (auto split: if_splits)

lemma lit_append: "lit (s @ t) = lit s @ lit t"
  by (simp add: lit_def)

lemma lit_eq_iff: "lit s = lit t \<longleftrightarrow> s = t"
proof -
  have "inj (of_char :: char \<Rightarrow> nat)" by (simp add: inj_on_def)
  then show ?thesis by (simp add: lit_def inj_map_eq_map)
qed

lemma length_hex: "length (hex bs) = 2 * length bs"
  by (induction bs) (simp_all add: hex_def)

subsection \<open>The shape of a generated code\<close>

text \<open>Uppercasing a hexadecimal digit gives one character, whatever the Unicode table.\<close>

lemma upper_cp_hexdigit:
  assumes "n < 16"
  shows "\<exists>c. upper_cp tbl (hexdigit n) = [c] \<and> c \<in> set (lit ''0123456789ABCDEF'')"
proof -
  from assms have "n \<in> set [0, 1, 2, 3, 4, 5, 6, 7, 8, 9, 10, 11, 12, 13, 14, 15]"
    by (simp only: set_simps insert_iff empty_iff) arith
  then have "upper_cp tbl (hexdigit n) \<in>
      upper_cp tbl ` hexdigit ` set [0, 1, 2, 3, 4, 5, 6, 7, 8, 9, 10, 11, 12, 13, 14, 15]"
    by blast
  also have "upper_cp tbl ` hexdigit ` set [0, 1, 2, 3, 4, 5, 6, 7, 8, 9, 10, 11, 12, 13, 14, 15]
      = set (map (upper_cp tbl) (map hexdigit [0, 1, 2, 3, 4, 5, 6, 7, 8, 9, 10, 11, 12, 13, 14, 15]))"
    by (simp only: set_map)
  also have "map (upper_cp tbl) (map hexdigit [0, 1, 2, 3, 4, 5, 6, 7, 8, 9, 10, 11, 12, 13, 14, 15])
      = map (\<lambda>c. [c]) (lit ''0123456789ABCDEF'')"
    by (simp add: hexdigit_def upper_cp_def lit_def)
  finally show ?thesis by auto
qed

lemma upper_hex_Cons:
  "\<exists>c1 c2. upper tbl (hex (b # bs)) = c1 # c2 # upper tbl (hex bs) \<and>
      c1 \<in> set (lit ''0123456789ABCDEF'') \<and> c2 \<in> set (lit ''0123456789ABCDEF'')"
proof -
  have "unat b < 256" using unsigned_less [of b, where 'a = nat] by simp
  then have "unat b div 16 < 16" by simp
  then obtain c1 where 1: "upper_cp tbl (hexdigit (unat b div 16)) = [c1]"
      "c1 \<in> set (lit ''0123456789ABCDEF'')"
    using upper_cp_hexdigit by blast
  have "unat b mod 16 < 16" by simp
  then obtain c2 where 2: "upper_cp tbl (hexdigit (unat b mod 16)) = [c2]"
      "c2 \<in> set (lit ''0123456789ABCDEF'')"
    using upper_cp_hexdigit by blast
  have "upper tbl (hex (b # bs)) =
      upper_cp tbl (hexdigit (unat b div 16)) @ upper_cp tbl (hexdigit (unat b mod 16))
        @ upper tbl (hex bs)"
    by (simp add: upper_def hex_def)
  with 1 2 show ?thesis by simp
qed

lemma length_upper_hex: "length (upper tbl (hex bs)) = 2 * length bs"
proof (induction bs)
  case Nil
  show ?case by (simp add: upper_def hex_def)
next
  case (Cons b bs)
  from upper_hex_Cons [of tbl b bs] obtain c1 c2
    where "upper tbl (hex (b # bs)) = c1 # c2 # upper tbl (hex bs)"
    by blast
  with Cons.IH show ?case by simp
qed

lemma upper_hex_alphabet: "set (upper tbl (hex bs)) \<subseteq> set (lit ''0123456789ABCDEF'')"
proof (induction bs)
  case Nil
  show ?case by (simp add: upper_def hex_def)
next
  case (Cons b bs)
  from upper_hex_Cons [of tbl b bs] obtain c1 c2
    where "upper tbl (hex (b # bs)) = c1 # c2 # upper tbl (hex bs)"
      "c1 \<in> set (lit ''0123456789ABCDEF'')" "c2 \<in> set (lit ''0123456789ABCDEF'')"
    by blast
  with Cons.IH show ?case by simp
qed

text \<open>Whenever the length is not negative, \<^verbatim>\<open>generate_code\<close> returns, and the slice cuts nothing.\<close>

lemma generate_code_nonneg:
  assumes "0 \<le> len"
  shows "generate_code tbl prefix len rng =
           Inr (prefix @ lit ''-'' @ upper tbl (hex (map rng [0..<nat (len div 2)])),
                \<lambda>i. rng (i + nat (len div 2)))"
proof -
  have "0 \<le> len div 2" using assms by simp
  moreover have "2 * nat (len div 2) \<le> nat len" using assms by linarith
  ultimately show ?thesis
    by (simp add: generate_code_def token_hex_def length_upper_hex)
qed

lemma generate_code_10:
  "generate_code tbl prefix 10 rng =
     Inr (prefix @ lit ''-'' @ upper tbl (hex (map rng [0..<5])), \<lambda>i. rng (i + 5))"
  using generate_code_nonneg [of 10 tbl prefix rng] by simp

text \<open>
  For a length that is not negative the result is the prefix, a hyphen and a token over
  the sixteen uppercase hexadecimal digits; the token has \<open>2 * (len div 2)\<close> characters,
  which is \<open>len\<close> when \<open>len\<close> is even and \<open>len - 1\<close> when it is odd. A negative length
  raises \<^verbatim>\<open>ValueError\<close>.
\<close>

lemma generate_code_token:
  assumes "0 \<le> len"
  shows "\<exists>tok rng'. generate_code tbl prefix len rng = Inr (prefix @ lit ''-'' @ tok, rng') \<and>
           length tok = 2 * nat (len div 2) \<and> set tok \<subseteq> set (lit ''0123456789ABCDEF'')"
  using generate_code_nonneg [OF assms, of tbl prefix rng] upper_hex_alphabet
  by (simp add: length_upper_hex)

lemma generate_code_negative: "len < 0 \<Longrightarrow> generate_code tbl prefix len rng = Inl ValueError"
  by (simp add: generate_code_def token_hex_def)

subsection \<open>The retry loop and the claim\<close>

lemma pick_code_candidates:
  "pick_code n tbl prefix d rng =
     Inr (find (\<lambda>k. by_code d k = None) (candidates n tbl prefix rng))"
  by (induction n arbitrary: rng) (simp_all add: generate_code_10)

lemma length_candidates: "length (candidates n tbl prefix rng) = n"
  by (induction n arbitrary: rng) (simp_all add: generate_code_10)

lemma candidates_const:
  "candidates n tbl prefix (\<lambda>i. b) =
     replicate n (prefix @ lit ''-'' @ upper tbl (hex (replicate 5 b)))"
  by (induction n) (simp_all add: generate_code_10 map_replicate_const)

lemma candidates_Suc:
  "candidates (Suc n) tbl prefix rng =
     (prefix @ lit ''-'' @ upper tbl (hex (map rng [0..<5])))
       # candidates n tbl prefix (\<lambda>i. rng (i + 5))"
  by (simp add: generate_code_10)

lemma candidates_10_first:
  "candidates 10 tbl prefix rng =
     (prefix @ lit ''-'' @ upper tbl (hex (map rng [0..<5])))
       # candidates 9 tbl prefix (\<lambda>i. rng (i + 5))"
proof -
  have "candidates 10 tbl prefix rng = candidates (Suc 9) tbl prefix rng" by simp
  then show ?thesis by (simp only: candidates_Suc)
qed

lemma by_code_None_iff: "by_code d k = None \<longleftrightarrow> Some k \<notin> set (map code (coupons d))"
  by (force simp: by_code_def find_None_iff)

lemma by_code_Some: "by_code d k = Some c \<Longrightarrow> c \<in> set (coupons d) \<and> code c = Some k"
  by (auto simp: by_code_def dest: find_Some_holds)

lemma get_offer_cases:
  obtains "get_offer d i = Inl OverflowError" and "2 ^ 63 \<le> i"
  | "get_offer d i = Inr None" and "i < 2 ^ 63"
  | ofr where "get_offer d i = Inr (Some ofr)" and "i < 2 ^ 63"
      and "ofr \<in> set (offers d)" and "offer_pk ofr = Some i"
proof (cases "2 ^ 63 \<le> i")
  case True
  then show ?thesis using that(1) by (simp add: get_offer_def)
next
  case False
  show ?thesis
  proof (cases "find (\<lambda>ofr. offer_pk ofr = Some i) (offers d)")
    case None
    with False show ?thesis using that(2) by (simp add: get_offer_def)
  next
    case (Some ofr)
    then have "ofr \<in> set (offers d)" "offer_pk ofr = Some i"
      by (auto dest: find_Some_holds)
    with False Some show ?thesis using that(3) by (simp add: get_offer_def)
  qed
qed

text \<open>What \<^verbatim>\<open>claim_offer\<close> does for an offer that exists, and for one that does not.\<close>

lemma claim_offer_found:
  assumes "get_offer d i = Inr (Some ofr)"
  shows "claim_offer e d i =
     (case find (\<lambda>k. by_code d k = None)
             (candidates 10 (unicode_upper e)
                (upper (unicode_upper e) (take 4 (offer_restaurant ofr))) (urandom e)) of
        None \<Rightarrow> (Inl IntegrityError, d)
      | Some k \<Rightarrow>
          (Inr (Json (JClaimed k (url_for e (ViewCoupon k)) (url_for e (CouponQr k))
                        (isoformat e (offer_expires ofr))), 200),
           d\<lparr>coupons := coupons d @ [issued e ofr d k]\<rparr>))"
proof (cases "find (\<lambda>k. by_code d k = None)
             (candidates 10 (unicode_upper e)
                (upper (unicode_upper e) (take 4 (offer_restaurant ofr))) (urandom e))")
  case None
  then show ?thesis
    using assms by (simp add: claim_offer_def pick_code_candidates insert_coupon_def)
next
  case (Some k)
  then have "by_code d k = None" by (auto dest: find_Some_holds)
  with Some show ?thesis
    using assms
    by (simp add: claim_offer_def pick_code_candidates insert_coupon_def issued_def Let_def)
qed

lemma claim_offer_missing:
  "get_offer d i = Inr None \<Longrightarrow> claim_offer e d i = (Inl NotFound, d)"
  by (simp add: claim_offer_def)

lemma claim_offer_overflow:
  "get_offer d i = Inl err \<Longrightarrow> claim_offer e d i = (Inl err, d)"
  by (simp add: claim_offer_def)

lemma claim_offer_offers: "offers (snd (claim_offer e d i)) = offers d"
proof (cases d i rule: get_offer_cases)
  case 1
  then show ?thesis by (simp add: claim_offer_overflow)
next
  case 2
  then show ?thesis by (simp add: claim_offer_missing)
next
  case (3 ofr)
  then show ?thesis by (simp add: claim_offer_found split: option.splits)
qed

lemma claim_offer_coupons: "\<exists>cs. coupons (snd (claim_offer e d i)) = coupons d @ cs"
proof (cases d i rule: get_offer_cases)
  case 1
  then show ?thesis by (simp add: claim_offer_overflow)
next
  case 2
  then show ?thesis by (simp add: claim_offer_missing)
next
  case (3 ofr)
  then show ?thesis by (simp add: claim_offer_found split: option.splits)
qed

text \<open>A claim that succeeds was made for a stored offer and drew an unused code.\<close>

lemma claim_offer_ok:
  assumes "claim_offer e d i = (Inr resp, d')"
  obtains ofr k where "get_offer d i = Inr (Some ofr)" and "i < 2 ^ 63"
    and "ofr \<in> set (offers d)" and "offer_pk ofr = Some i"
    and "find (\<lambda>k. by_code d k = None)
           (candidates 10 (unicode_upper e)
              (upper (unicode_upper e) (take 4 (offer_restaurant ofr))) (urandom e)) = Some k"
    and "by_code d k = None"
    and "resp = (Json (JClaimed k (url_for e (ViewCoupon k)) (url_for e (CouponQr k))
                        (isoformat e (offer_expires ofr))), 200)"
    and "d' = d\<lparr>coupons := coupons d @ [issued e ofr d k]\<rparr>"
proof (cases d i rule: get_offer_cases)
  case 1
  with assms show ?thesis by (simp add: claim_offer_overflow)
next
  case 2
  with assms show ?thesis by (simp add: claim_offer_missing)
next
  case (3 ofr)
  show ?thesis
  proof (cases "find (\<lambda>k. by_code d k = None)
           (candidates 10 (unicode_upper e)
              (upper (unicode_upper e) (take 4 (offer_restaurant ofr))) (urandom e))")
    case None
    with 3 assms show ?thesis by (simp add: claim_offer_found)
  next
    case (Some k)
    then have "by_code d k = None" by (auto dest: find_Some_holds)
    moreover from Some 3 assms
    have "resp = (Json (JClaimed k (url_for e (ViewCoupon k)) (url_for e (CouponQr k))
                        (isoformat e (offer_expires ofr))), 200)"
      and "d' = d\<lparr>coupons := coupons d @ [issued e ofr d k]\<rparr>"
      by (simp_all add: claim_offer_found)
    ultimately show ?thesis using that 3 Some by blast
  qed
qed

text \<open>
  If the code made of the offer's prefix and the bytes \<open>bs\<close> is not stored, the claim
  that draws these bytes first succeeds under that code.
\<close>

lemma claim_offer_free_code:
  assumes "get_offer d i = Inr (Some ofr)" and "length bs = 5"
    and "by_code d (upper (unicode_upper e) (take 4 (offer_restaurant ofr)) @ lit ''-'' @
           upper (unicode_upper e) (hex bs)) = None"
  shows "claim_offer (e\<lparr>urandom := (\<lambda>j. bs ! j)\<rparr>) d i =
     (Inr (Json (JClaimed
                   (upper (unicode_upper e) (take 4 (offer_restaurant ofr)) @ lit ''-'' @
                      upper (unicode_upper e) (hex bs))
                   (url_for e (ViewCoupon
                      (upper (unicode_upper e) (take 4 (offer_restaurant ofr)) @ lit ''-'' @
                         upper (unicode_upper e) (hex bs))))
                   (url_for e (CouponQr
                      (upper (unicode_upper e) (take 4 (offer_restaurant ofr)) @ lit ''-'' @
                         upper (unicode_upper e) (hex bs))))
                   (isoformat e (offer_expires ofr))), 200),
      d\<lparr>coupons := coupons d @
         [issued e ofr d
            (upper (unicode_upper e) (take 4 (offer_restaurant ofr)) @ lit ''-'' @
               upper (unicode_upper e) (hex bs))]\<rparr>)"
proof -
  have "map (\<lambda>j. bs ! j) [0..<5] = bs"
    using assms(2) map_nth [of bs] by simp
  then have "find (\<lambda>k. by_code d k = None)
      (candidates 10 (unicode_upper e)
         (upper (unicode_upper e) (take 4 (offer_restaurant ofr))) (\<lambda>j. bs ! j))
    = Some (upper (unicode_upper e) (take 4 (offer_restaurant ofr)) @ lit ''-'' @
              upper (unicode_upper e) (hex bs))"
    using assms(3) by (simp add: candidates_10_first)
  then show ?thesis
    by (simp add: claim_offer_found [OF assms(1)] issued_def)
qed

lemma run_claims_offers:
  "offers (run (map (\<lambda>(e, j). (e, ClaimOffer j)) cl) d) = offers d"
  by (induction cl arbitrary: d) (auto simp: handle_def claim_offer_offers)

lemma run_claims_coupons:
  "\<exists>cs. coupons (run (map (\<lambda>(e, j). (e, ClaimOffer j)) cl) d) = coupons d @ cs"
proof (induction cl arbitrary: d)
  case Nil
  show ?case by simp
next
  case (Cons a cl)
  obtain e j where a: "a = (e, j)" by (cases a)
  from claim_offer_coupons [of e d j] obtain cs
    where cs: "coupons (snd (claim_offer e d j)) = coupons d @ cs"
    by blast
  from Cons.IH [of "snd (claim_offer e d j)"] obtain cs'
    where "coupons (run (map (\<lambda>(e, j). (e, ClaimOffer j)) cl) (snd (claim_offer e d j)))
             = coupons (snd (claim_offer e d j)) @ cs'"
    by blast
  with cs a show ?case
    by (intro exI [of _ "cs @ cs'"]) (simp add: handle_def)
qed

subsection \<open>The redeem handler by cases\<close>

lemma stamped_fields:
  "pk (stamped e f c) = pk c" "code (stamped e f c) = code c"
  "expires (stamped e f c) = expires c" "redeemed_at (stamped e f c) = Some (utcnow e)"
  by (simp_all add: stamped_def)

lemma redeem_by_cases:
  "redeem e d f =
     (if normalized e f = [] then ((Json (JError ''missing code''), 400), d)
      else case by_code d (normalized e f) of
        None \<Rightarrow> ((Json (JError ''code not found''), 404), d)
      | Some c \<Rightarrow>
          if expires c < today e then ((Json (JError ''expired''), 410), d)
          else if redeemed_at c \<noteq> None then ((Json (JError ''already redeemed''), 409), d)
          else ((Json (JRedeemed (code c)), 200), commit_coupon (stamped e f c) d))"
  by (simp add: redeem_def normalized_def stamped_def Let_def is_expired_def is_redeemed_def
      split: option.splits)

text \<open>A redemption either leaves the store alone or stamps the row found under the code.\<close>

lemma redeem_cases:
  "snd (redeem e d f) = d \<or>
   (\<exists>c. normalized e f \<noteq> [] \<and> by_code d (normalized e f) = Some c \<and>
      \<not> expires c < today e \<and> redeemed_at c = None \<and>
      redeem e d f = ((Json (JRedeemed (code c)), 200), commit_coupon (stamped e f c) d))"
  by (auto simp: redeem_by_cases split: option.splits)

lemma redeem_ok:
  assumes "snd (fst (redeem e d f)) = 200"
  shows "\<exists>c. normalized e f \<noteq> [] \<and> by_code d (normalized e f) = Some c \<and>
      \<not> expires c < today e \<and> redeemed_at c = None \<and>
      redeem e d f = ((Json (JRedeemed (code c)), 200), commit_coupon (stamped e f c) d)"
  using assms by (auto simp: redeem_by_cases split: option.splits if_splits)

lemma redeem_active:
  assumes "normalized e f \<noteq> []" and "by_code d (normalized e f) = Some c"
    and "today e \<le> expires c" and "redeemed_at c = None"
  shows "redeem e d f =
     ((Json (JRedeemed (Some (normalized e f))), 200), commit_coupon (stamped e f c) d)"
proof -
  from assms(2) have "code c = Some (normalized e f)" by (simp add: by_code_Some)
  with assms show ?thesis by (simp add: redeem_by_cases)
qed

lemma redeem_redeemed:
  assumes "normalized e f \<noteq> []" and "by_code d (normalized e f) = Some c"
    and "redeemed_at c \<noteq> None"
  shows "redeem e d f =
     ((Json (JError (if expires c < today e then ''expired'' else ''already redeemed'')),
       (if expires c < today e then 410 else 409)), d)"
  using assms by (auto simp: redeem_by_cases)

subsection \<open>The table constraints are kept\<close>

lemma fold_max_ge:
  "(m::nat) \<le> fold (\<lambda>k m. case k of None \<Rightarrow> m | Some n \<Rightarrow> max n m) ks m"
proof (induction ks arbitrary: m)
  case Nil
  show ?case by simp
next
  case (Cons k ks)
  show ?case
  proof (cases k)
    case None
    then show ?thesis using Cons.IH [of m] by simp
  next
    case (Some n)
    then show ?thesis using Cons.IH [of "max n m"] by simp
  qed
qed

lemma fold_max_member:
  "Some (n::nat) \<in> set ks \<Longrightarrow>
     n \<le> fold (\<lambda>k m. case k of None \<Rightarrow> m | Some n \<Rightarrow> max n m) ks m"
proof (induction ks arbitrary: m)
  case Nil
  then show ?case by simp
next
  case (Cons k ks)
  show ?case
  proof (cases "k = Some n")
    case True
    have "max n m \<le> fold (\<lambda>k m. case k of None \<Rightarrow> m | Some n \<Rightarrow> max n m) ks (max n m)"
      by (rule fold_max_ge)
    with True show ?thesis by simp
  next
    case False
    with Cons.prems have "Some n \<in> set ks" by simp
    then show ?thesis using Cons.IH by (cases k) simp_all
  qed
qed

lemma next_pk_fresh: "Some (next_pk ks) \<notin> set ks"
proof
  assume "Some (next_pk ks) \<in> set ks"
  then have "next_pk ks \<le> fold (\<lambda>k m. case k of None \<Rightarrow> m | Some n \<Rightarrow> max n m) ks 0"
    by (rule fold_max_member)
  then show False by (simp add: next_pk_def)
qed

lemma map_replace_same_pk:
  assumes "distinct (map pk xs)" and "c \<in> set xs"
  shows "map (\<lambda>r. if pk r = pk c then c' else r) xs = map (\<lambda>r. if r = c then c' else r) xs"
proof (rule map_cong [OF refl])
  fix r assume "r \<in> set xs"
  with assms have "pk r = pk c \<longleftrightarrow> r = c"
    by (auto simp: distinct_map inj_on_def)
  then show "(if pk r = pk c then c' else r) = (if r = c then c' else r)" by simp
qed

lemma map_replace_proj:
  "g c' = g c \<Longrightarrow> map g (map (\<lambda>r. if r = c then c' else r) xs) = map g xs"
  by (induction xs) auto

lemma commit_coupon_same:
  assumes "distinct (map pk (coupons d))" and "c \<in> set (coupons d)" and "pk c' = pk c"
  shows "coupons (commit_coupon c' d) = map (\<lambda>r. if r = c then c' else r) (coupons d)"
  using assms map_replace_same_pk [of "coupons d" c c'] by (simp add: commit_coupon_def)

lemma commit_coupon_wf:
  assumes "wf_db d" and "c \<in> set (coupons d)" and "pk c' = pk c" and "code c' = code c"
  shows "wf_db (commit_coupon c' d)"
proof -
  have eq: "coupons (commit_coupon c' d) = map (\<lambda>r. if r = c then c' else r) (coupons d)"
    using assms by (intro commit_coupon_same) (simp_all add: wf_db_def)
  have "map pk (coupons (commit_coupon c' d)) = map pk (coupons d)"
    unfolding eq using assms(3) by (rule map_replace_proj)
  moreover have "map code (coupons (commit_coupon c' d)) = map code (coupons d)"
    unfolding eq using assms(4) by (rule map_replace_proj)
  ultimately show ?thesis
    using assms(1) by (simp add: wf_db_def)
qed

lemma commit_coupon_member:
  assumes "wf_db d" and "c \<in> set (coupons d)" and "pk c' = pk c"
  shows "c' \<in> set (coupons (commit_coupon c' d))"
    and "\<And>r. r \<in> set (coupons d) \<Longrightarrow> r \<noteq> c \<Longrightarrow> r \<in> set (coupons (commit_coupon c' d))"
proof -
  have eq: "coupons (commit_coupon c' d) = map (\<lambda>r. if r = c then c' else r) (coupons d)"
    using assms by (intro commit_coupon_same) (simp_all add: wf_db_def)
  show "c' \<in> set (coupons (commit_coupon c' d))"
    unfolding eq using assms(2) by (force simp: image_iff)
  show "r \<in> set (coupons (commit_coupon c' d))" if "r \<in> set (coupons d)" "r \<noteq> c" for r
    unfolding eq using that by (force simp: image_iff)
qed

lemma claim_offer_wf: "wf_db d \<Longrightarrow> wf_db (snd (claim_offer e d i))"
proof (cases d i rule: get_offer_cases)
  case 1
  assume "wf_db d"
  with 1 show ?thesis by (simp add: claim_offer_overflow)
next
  case 2
  assume "wf_db d"
  with 2 show ?thesis by (simp add: claim_offer_missing)
next
  case (3 ofr)
  assume wf: "wf_db d"
  show ?thesis
  proof (cases "find (\<lambda>k. by_code d k = None)
           (candidates 10 (unicode_upper e)
              (upper (unicode_upper e) (take 4 (offer_restaurant ofr))) (urandom e))")
    case None
    with 3 wf show ?thesis by (simp add: claim_offer_found)
  next
    case (Some k)
    then have "by_code d k = None" by (auto dest: find_Some_holds)
    then have "Some k \<notin> set (map code (coupons d))" by (simp add: by_code_None_iff)
    moreover have "Some (next_pk (map pk (coupons d))) \<notin> set (map pk (coupons d))"
      by (rule next_pk_fresh)
    ultimately show ?thesis
      using wf Some 3(1)
      by (simp add: claim_offer_found wf_db_def issued_def)
  qed
qed

lemma create_offer_coupons: "coupons (snd (create_offer e d f)) = coupons d"
  by (simp add: create_offer_def insert_offer_def Let_def split: option.splits)

lemma redeem_wf:
  assumes "wf_db d"
  shows "wf_db (snd (redeem e d f))"
proof -
  from redeem_cases [of e d f] show ?thesis
  proof (elim disjE exE conjE)
    assume "snd (redeem e d f) = d"
    with assms show ?thesis by simp
  next
    fix c
    assume c: "by_code d (normalized e f) = Some c"
      and s: "redeem e d f = ((Json (JRedeemed (code c)), 200), commit_coupon (stamped e f c) d)"
    from c have "c \<in> set (coupons d)" by (simp add: by_code_Some)
    with assms have "wf_db (commit_coupon (stamped e f c) d)"
      by (rule commit_coupon_wf) (simp_all add: stamped_fields)
    with s show ?thesis by simp
  qed
qed

lemma handle_wf: "wf_db d \<Longrightarrow> wf_db (snd (handle e rq d))"
proof (cases rq)
  case (CreateOffer f)
  assume "wf_db d"
  then show ?thesis
    using CreateOffer create_offer_coupons [of e d f] by (simp add: handle_def wf_db_def)
next
  case (ClaimOffer i)
  assume "wf_db d"
  then show ?thesis using ClaimOffer by (simp add: handle_def claim_offer_wf)
next
  case (Redeem f)
  assume "wf_db d"
  then show ?thesis
    using Redeem redeem_wf [of d e f] by (auto simp: handle_def split: prod.splits)
qed

lemma run_wf: "wf_db d \<Longrightarrow> wf_db (run hist d)"
  by (induction hist arbitrary: d) (auto simp: handle_wf)

subsection \<open>Redeemed rows stay as they are\<close>

lemma find_unique_code:
  "distinct (map code xs) \<Longrightarrow> c \<in> set xs \<Longrightarrow> code c = Some k \<Longrightarrow>
     find (\<lambda>r. code r = Some k) xs = Some c"
  by (induction xs) (auto simp: image_iff)

lemma by_code_member:
  "wf_db d \<Longrightarrow> c \<in> set (coupons d) \<Longrightarrow> code c = Some k \<Longrightarrow> by_code d k = Some c"
  by (simp add: wf_db_def by_code_def find_unique_code)

lemma redeem_keeps_redeemed:
  assumes "wf_db d" and "r \<in> set (coupons d)" and "redeemed_at r \<noteq> None"
  shows "r \<in> set (coupons (snd (redeem e d f)))"
proof -
  from redeem_cases [of e d f] show ?thesis
  proof (elim disjE exE conjE)
    assume "snd (redeem e d f) = d"
    with assms show ?thesis by simp
  next
    fix c
    assume c: "by_code d (normalized e f) = Some c"
      and n: "redeemed_at c = None"
      and s: "redeem e d f = ((Json (JRedeemed (code c)), 200), commit_coupon (stamped e f c) d)"
    from c have "c \<in> set (coupons d)" by (simp add: by_code_Some)
    moreover from n assms(3) have "r \<noteq> c" by auto
    ultimately have "r \<in> set (coupons (commit_coupon (stamped e f c) d))"
      using assms(1,2) by (intro commit_coupon_member(2)) (simp_all add: stamped_fields)
    with s show ?thesis by simp
  qed
qed

lemma handle_keeps_redeemed:
  assumes "wf_db d" and "r \<in> set (coupons d)" and "redeemed_at r \<noteq> None"
  shows "r \<in> set (coupons (snd (handle e rq d)))"
proof (cases rq)
  case (CreateOffer f)
  then show ?thesis using assms(2) by (simp add: handle_def create_offer_coupons)
next
  case (ClaimOffer i)
  then show ?thesis
    using assms(2) claim_offer_coupons [of e d i] by (auto simp: handle_def)
next
  case (Redeem f)
  then show ?thesis
    using redeem_keeps_redeemed [OF assms, of e f] by (auto simp: handle_def split: prod.splits)
qed

lemma run_keeps_redeemed:
  "wf_db d \<Longrightarrow> r \<in> set (coupons d) \<Longrightarrow> redeemed_at r \<noteq> None \<Longrightarrow>
     r \<in> set (coupons (run hist d))"
proof (induction hist arbitrary: d)
  case Nil
  then show ?case by simp
next
  case (Cons a hist)
  obtain e rq where a: "a = (e, rq)" by (cases a)
  have "wf_db (snd (handle e rq d))" using Cons.prems(1) by (rule handle_wf)
  moreover have "r \<in> set (coupons (snd (handle e rq d)))"
    using Cons.prems by (rule handle_keeps_redeemed)
  ultimately show ?case using Cons.IH Cons.prems(3) a by simp
qed

subsection \<open>Values of the concrete inputs\<close>

lemma replicate_5: "replicate 5 x = [x, x, x, x, x]"
  by (simp add: numeral_eq_Suc)

lemma replicate_10: "replicate 10 x = [x, x, x, x, x, x, x, x, x, x]"
  by (simp add: numeral_eq_Suc)

lemma hex_ab: "upper tbl (hex (replicate 5 (0xAB :: byte))) = lit ''ABABABABAB''"
  by (simp add: replicate_5 hex_def hexdigit_def upper_def upper_cp_def lit_def)

lemma hex_cd: "upper tbl (hex (replicate 5 (0xCD :: byte))) = lit ''CDCDCDCDCD''"
  by (simp add: replicate_5 hex_def hexdigit_def upper_def upper_cp_def lit_def)

lemma hex_ef: "upper tbl (hex [0xEF, 0xEF, 0xEF, 0xEF, 0xEF :: byte]) = lit ''EFEFEFEFEF''"
  by (simp add: hex_def hexdigit_def upper_def upper_cp_def lit_def)

lemma code_ab: "lit ''CHIP'' @ lit ''-'' @ lit ''ABABABABAB'' = lit ''CHIP-ABABABABAB''"
  by (simp add: lit_def)

lemma code_cd: "lit ''CHIP'' @ lit ''-'' @ lit ''CDCDCDCDCD'' = lit ''CHIP-CDCDCDCDCD''"
  by (simp add: lit_def)

lemma code_ef: "lit ''CHIP'' @ lit ''-'' @ lit ''EFEFEFEFEF'' = lit ''CHIP-EFEFEFEFEF''"
  by (simp add: lit_def)

lemma prefix_chipotle: "upper tbl (take 4 (offer_restaurant chipotle)) = lit ''CHIP''"
  by (simp add: chipotle_def upper_def upper_cp_def lit_def)

lemma get_offer_seeded: "get_offer db_seeded 1 = Inr (Some chipotle)"
  by (simp add: get_offer_def db_seeded_def chipotle_def)

lemma get_offer_claimed: "get_offer db_claimed 1 = Inr (Some chipotle)"
  by (simp add: get_offer_def db_claimed_def chipotle_def)

lemma get_offer_two: "get_offer db_two 1 = Inr (Some chipotle)"
  by (simp add: get_offer_def db_two_def chipotle_def)

lemma wf_db_claimed: "wf_db db_claimed"
  by (simp add: wf_db_def db_claimed_def)

lemma wf_db_redeemed: "wf_db db_redeemed"
  by (simp add: wf_db_def db_redeemed_def)

lemma env_nov1_clock: "today env_nov1 = 739556" "utcnow env_nov1 = 1000"
  by (simp_all add: env_nov1_def)

text \<open>The blank before the code and the no-break space after it are trimmed.\<close>

lemma normalized_form_ab: "normalized e form_ab = lit ''CHIP-ABABABABAB''"
  by (simp add: normalized_def form_ab_def or_empty_def strip_def isspace_def upper_def
      upper_cp_def lit_def)

lemma who_form_ab: "strip (or_empty (form_redeemed_by form_ab)) = lit ''Alice''"
  by (simp add: form_ab_def or_empty_def strip_def isspace_def lit_def)

lemma stamped_coupon_ab:
  "stamped env_nov1 form_ab coupon_ab =
     coupon_ab\<lparr>redeemed_at := Some 1000, redeemed_by := Some (lit ''Alice'')\<rparr>"
proof -
  have "lit ''Alice'' \<noteq> []" by (simp add: lit_def)
  then show ?thesis by (simp add: stamped_def who_form_ab env_nov1_clock)
qed

lemma by_code_db_seeded: "by_code db_seeded k = None"
  by (simp add: by_code_def db_seeded_def)

lemma by_code_db_claimed: "by_code db_claimed (lit ''CHIP-ABABABABAB'') = Some coupon_ab"
  by (simp add: by_code_def db_claimed_def coupon_ab_def)

lemma by_code_db_claimed_cd: "by_code db_claimed (lit ''CHIP-CDCDCDCDCD'') = None"
  by (simp add: by_code_def db_claimed_def coupon_ab_def lit_eq_iff)

lemma by_code_db_two_ef: "by_code db_two (lit ''CHIP-EFEFEFEFEF'') = None"
  by (simp add: by_code_def db_two_def coupon_ab_def coupon_cd_def lit_eq_iff)

lemma by_code_db_redeemed:
  "by_code db_redeemed (lit ''CHIP-ABABABABAB'') =
     Some (coupon_ab\<lparr>redeemed_at := Some 1000, redeemed_by := Some (lit ''Alice'')\<rparr>)"
  by (simp add: by_code_def db_redeemed_def coupon_ab_def)

text \<open>The first claim of the seeded offer, and a second one under other entropy.\<close>

lemma claim_seeded:
  "claim_offer env_nov1 db_seeded 1 =
     (Inr (Json (JClaimed (lit ''CHIP-ABABABABAB'') (lit ''/coupon/CHIP-ABABABABAB'')
                   (lit ''/coupon/CHIP-ABABABABAB/qr.png'') (lit ''2025-11-05'')), 200),
      db_claimed)"
proof -
  have u: "urandom env_nov1 = (\<lambda>i. 0xAB)" by (simp add: env_nov1_def)
  have "find (\<lambda>k. by_code db_seeded k = None) (replicate 10 (lit ''CHIP-ABABABABAB''))
          = Some (lit ''CHIP-ABABABABAB'')"
    by (simp add: replicate_10 by_code_db_seeded)
  then show ?thesis
    unfolding claim_offer_found [OF get_offer_seeded] prefix_chipotle u candidates_const hex_ab
      code_ab
    by (simp add: issued_def next_pk_def db_seeded_def db_claimed_def coupon_ab_def chipotle_def
        env_nov1_def lit_def)
qed

lemma claim_cd:
  "claim_offer env_cd db_claimed 1 =
     (Inr (Json (JClaimed (lit ''CHIP-CDCDCDCDCD'') (lit ''/coupon/CHIP-CDCDCDCDCD'')
                   (lit ''/coupon/CHIP-CDCDCDCDCD/qr.png'') (lit ''2025-11-05'')), 200),
      db_two)"
proof -
  have u: "urandom env_cd = (\<lambda>i. 0xCD)" by (simp add: env_cd_def)
  have "find (\<lambda>k. by_code db_claimed k = None) (replicate 10 (lit ''CHIP-CDCDCDCDCD''))
          = Some (lit ''CHIP-CDCDCDCDCD'')"
    by (simp add: replicate_10 by_code_db_claimed_cd)
  then show ?thesis
    unfolding claim_offer_found [OF get_offer_claimed] prefix_chipotle u candidates_const hex_cd
      code_cd
    by (simp add: issued_def next_pk_def db_two_def db_claimed_def coupon_ab_def coupon_cd_def
        chipotle_def env_cd_def env_nov1_def lit_def)
qed

lemma run_two_claims:
  "run (map (\<lambda>(e, j). (e, ClaimOffer j)) [(env_nov1, 1), (env_cd, 1)]) db_seeded = db_two"
  by (simp del: One_nat_def add: handle_def claim_seeded claim_cd)

text \<open>Under the entropy of \<open>env_nov1\<close> every one of the ten candidates is already stored.\<close>

lemma candidates_nov1:
  "candidates 10 tbl (lit ''CHIP'') (urandom env_nov1) = replicate 10 (lit ''CHIP-ABABABABAB'')"
proof -
  have u: "urandom env_nov1 = (\<lambda>i. 0xAB)" by (simp add: env_nov1_def)
  show ?thesis unfolding u candidates_const hex_ab code_ab by simp
qed

lemma claim_all_collide:
  "find (\<lambda>k. by_code db_claimed k = None) (candidates 10 tbl (lit ''CHIP'') (urandom env_nov1))
     = None"
  unfolding candidates_nov1 by (simp add: find_None_iff by_code_db_claimed)

text \<open>
  Under the entropy of \<open>env_ab_ab_cd\<close> the first two candidates are stored and the third
  is not.
\<close>

lemma candidates_ab_ab_cd:
  "candidates 10 tbl (lit ''CHIP'') (urandom env_ab_ab_cd) =
     lit ''CHIP-ABABABABAB'' # lit ''CHIP-ABABABABAB'' # replicate 8 (lit ''CHIP-CDCDCDCDCD'')"
proof -
  have u: "urandom env_ab_ab_cd = (\<lambda>i. if i < 10 then 0xAB else 0xCD)"
    by (simp add: env_ab_ab_cd_def)
  have 1: "map (\<lambda>i. if i < 10 then 0xAB else 0xCD :: byte) [0..<5] = replicate 5 0xAB"
    by (simp add: replicate_5 upt_rec)
  have 2: "map (\<lambda>i. if i + 5 < 10 then 0xAB else 0xCD :: byte) [0..<5] = replicate 5 0xAB"
    by (simp add: replicate_5 upt_rec)
  have 3: "(\<lambda>i::nat. if i + 5 + 5 < 10 then 0xAB else 0xCD :: byte) = (\<lambda>i. 0xCD)"
    by (rule ext) simp
  have "candidates 10 tbl (lit ''CHIP'') (\<lambda>i. if i < 10 then 0xAB else 0xCD) =
      candidates (Suc (Suc 8)) tbl (lit ''CHIP'') (\<lambda>i. if i < 10 then 0xAB else 0xCD)"
    by simp
  also have "\<dots> = lit ''CHIP-ABABABABAB'' # lit ''CHIP-ABABABABAB''
      # candidates 8 tbl (lit ''CHIP'') (\<lambda>i. 0xCD)"
    unfolding candidates_Suc 1 2 3 hex_ab code_ab by (rule refl)
  also have "candidates 8 tbl (lit ''CHIP'') (\<lambda>i. 0xCD) = replicate 8 (lit ''CHIP-CDCDCDCDCD'')"
    unfolding candidates_const hex_cd code_cd by (rule refl)
  finally show ?thesis unfolding u .
qed

lemma find_ab_ab_cd:
  "find (\<lambda>k. by_code db_claimed k = None)
     (candidates 10 tbl (lit ''CHIP'') (urandom env_ab_ab_cd)) = Some (lit ''CHIP-CDCDCDCDCD'')"
proof -
  have "replicate 8 (lit ''CHIP-CDCDCDCDCD'')
      = lit ''CHIP-CDCDCDCDCD'' # replicate 7 (lit ''CHIP-CDCDCDCDCD'')"
    by (simp add: numeral_eq_Suc)
  then show ?thesis
    unfolding candidates_ab_ab_cd by (simp add: by_code_db_claimed by_code_db_claimed_cd)
qed

text \<open>The value of \<^verbatim>\<open>redeem\<close> on the concrete stores.\<close>

lemma redeem_first:
  "redeem env_nov1 db_claimed form_ab =
     ((Json (JRedeemed (Some (lit ''CHIP-ABABABABAB''))), 200), db_redeemed)"
proof -
  have n: "lit ''CHIP-ABABABABAB'' \<noteq> []" by (simp add: lit_def)
  have c: "commit_coupon (coupon_ab\<lparr>redeemed_at := Some 1000, redeemed_by := Some (lit ''Alice'')\<rparr>)
      db_claimed = db_redeemed"
    by (simp add: commit_coupon_def db_claimed_def db_redeemed_def)
  have "redeem env_nov1 db_claimed form_ab =
     ((Json (JRedeemed (Some (lit ''CHIP-ABABABABAB''))), 200),
      commit_coupon (stamped env_nov1 form_ab coupon_ab) db_claimed)"
    using redeem_active [of env_nov1 form_ab db_claimed coupon_ab, unfolded normalized_form_ab]
      n by_code_db_claimed
    by (simp add: env_nov1_clock coupon_ab_def)
  then show ?thesis by (simp only: stamped_coupon_ab c)
qed

lemma redeem_second_same_day:
  "redeem env_nov1 db_redeemed form_ab = ((Json (JError ''already redeemed''), 409), db_redeemed)"
proof -
  have n: "lit ''CHIP-ABABABABAB'' \<noteq> []" by (simp add: lit_def)
  show ?thesis
    unfolding redeem_by_cases normalized_form_ab by_code_db_redeemed
    using n by (simp add: env_nov1_clock coupon_ab_def)
qed

section \<open>The redeem operation\<close>

text \<open>
  C1. For every redeem request the submitted code is trimmed and uppercased (a missing
  field counts as empty), and the checks run in this order, the first failure deciding
  the answer and leaving the store as it is: an empty code gives \<^verbatim>\<open>missing code\<close> with
  400; no row under the code gives \<^verbatim>\<open>code not found\<close> with 404; an expiration date
  strictly before today gives \<^verbatim>\<open>expired\<close> with 410; a set redemption timestamp gives
  \<^verbatim>\<open>already redeemed\<close> with 409. Otherwise the redemption succeeds: the answer is 200
  with the code, and the row found is written back with its redemption timestamp set
  to the current time and, where the trimmed name is not empty, the redeemer's name.
  A coupon that is both expired and redeemed therefore answers \<^verbatim>\<open>expired\<close>.
\<close>

theorem redeem_checks_in_order:
  "redeem e d f =
     (let k = upper (unicode_upper e) (strip (case form_code f of None \<Rightarrow> [] | Some s \<Rightarrow> s));
          who = strip (case form_redeemed_by f of None \<Rightarrow> [] | Some s \<Rightarrow> s)
      in
      if k = [] then ((Json (JError ''missing code''), 400), d)
      else case find (\<lambda>c. code c = Some k) (coupons d) of
             None \<Rightarrow> ((Json (JError ''code not found''), 404), d)
           | Some c \<Rightarrow>
               if expires c < today e then ((Json (JError ''expired''), 410), d)
               else if redeemed_at c \<noteq> None
               then ((Json (JError ''already redeemed''), 409), d)
               else ((Json (JRedeemed (Some k)), 200),
                     d\<lparr>coupons :=
                         map (\<lambda>r. if pk r = pk c
                                  then (if who = [] then c\<lparr>redeemed_at := Some (utcnow e)\<rparr>
                                        else c\<lparr>redeemed_at := Some (utcnow e),
                                               redeemed_by := Some who\<rparr>)
                                  else r)
                           (coupons d)\<rparr>))"
  by (auto simp: redeem_def Let_def or_empty_def by_code_def is_expired_def is_redeemed_def
      commit_coupon_def split: option.splits dest: find_Some_holds)

text \<open>
  On 2025-11-06 the coupon \<^verbatim>\<open>CHIP-ABABABABAB\<close>, expired the day before and already
  redeemed, answers \<^verbatim>\<open>expired\<close> and the store stays as it is; on 2025-11-01, not yet
  redeemed, it is redeemed by Alice. The form spells the code in lower case between a
  blank and a no-break space.
\<close>

theorem redeem_checks_in_order_witness:
  "redeem (env_nov1\<lparr>today := 739561\<rparr>) db_redeemed form_ab =
     ((Json (JError ''expired''), 410), db_redeemed) \<and>
   redeem env_nov1 db_claimed form_ab =
     ((Json (JRedeemed (Some (lit ''CHIP-ABABABABAB''))), 200), db_redeemed)"
proof -
  have k: "upper (unicode_upper e) (strip (case form_code form_ab of None \<Rightarrow> [] | Some s \<Rightarrow> s))
             = lit ''CHIP-ABABABABAB''" for e :: env
    using normalized_form_ab [of e] by (simp add: normalized_def or_empty_def)
  have w: "strip (case form_redeemed_by form_ab of None \<Rightarrow> [] | Some s \<Rightarrow> s) = lit ''Alice''"
    using who_form_ab by (simp add: or_empty_def)
  have n: "lit ''CHIP-ABABABABAB'' \<noteq> []" "lit ''Alice'' \<noteq> []" by (simp_all add: lit_def)
  from redeem_checks_in_order [of "env_nov1\<lparr>today := 739561\<rparr>" db_redeemed form_ab,
      unfolded Let_def k w by_code_db_redeemed [unfolded by_code_def]] n
  have 1: "redeem (env_nov1\<lparr>today := 739561\<rparr>) db_redeemed form_ab =
     ((Json (JError ''expired''), 410), db_redeemed)"
    by (simp add: coupon_ab_def)
  from redeem_checks_in_order [of env_nov1 db_claimed form_ab,
      unfolded Let_def k w by_code_db_claimed [unfolded by_code_def]] n
  have 2: "redeem env_nov1 db_claimed form_ab =
     ((Json (JRedeemed (Some (lit ''CHIP-ABABABABAB''))), 200), db_redeemed)"
    by (simp add: env_nov1_clock coupon_ab_def db_claimed_def db_redeemed_def)
  from 1 2 show ?thesis by blast
qed

text \<open>
  C10. Whenever \<^verbatim>\<open>redeem\<close> answers with an error, that is with any status but 200, the
  status is 400, 404, 410 or 409 and the store after the request is the store before
  it: no row of either table is written.
\<close>

theorem redeem_error_no_write:
  "snd (fst (redeem e d f)) \<noteq> 200 \<Longrightarrow>
     snd (redeem e d f) = d \<and> snd (fst (redeem e d f)) \<in> {400, 404, 410, 409}"
  by (auto simp: redeem_def Let_def split: option.splits if_splits)

theorem redeem_error_no_write_witness:
  "snd (fst (redeem (env_nov1\<lparr>today := 739561\<rparr>) db_claimed form_ab)) = 410 \<and>
   snd (redeem (env_nov1\<lparr>today := 739561\<rparr>) db_claimed form_ab) = db_claimed"
proof -
  have n: "lit ''CHIP-ABABABABAB'' \<noteq> []" by (simp add: lit_def)
  have h: "snd (fst (redeem (env_nov1\<lparr>today := 739561\<rparr>) db_claimed form_ab)) = 410"
    unfolding redeem_by_cases normalized_form_ab by_code_db_claimed
    using n by (simp add: coupon_ab_def)
  then have "snd (fst (redeem (env_nov1\<lparr>today := 739561\<rparr>) db_claimed form_ab)) \<noteq> 200"
    by simp
  from redeem_error_no_write [OF this] h show ?thesis by simp
qed

text \<open>
  C2, as the code has it. Take a store that meets the table constraints and a coupon in
  it that is active: stored under the submitted code, not redeemed, and not expired
  today. The attempt succeeds with 200 and stamps that row and no other. From then on
  the stamped row stays as it is whatever requests follow, and every later attempt on
  the same code, at any time, fails and writes nothing: with \<^verbatim>\<open>already redeemed\<close> (409)
  as long as today is not after the expiration date, and with \<^verbatim>\<open>expired\<close> (410) once it
  is. So exactly one attempt succeeds. And no request ever changes a row whose
  redemption timestamp is set: the timestamp is never unset.
\<close>

theorem redeem_exactly_once:
  assumes "wf_db d"
  shows "(normalized e f \<noteq> [] \<and> by_code d (normalized e f) = Some c \<and>
      redeemed_at c = None \<and> today e \<le> expires c \<and> normalized e' f' = normalized e f \<longrightarrow>
       redeem e d f =
         ((Json (JRedeemed (Some (normalized e f))), 200),
          d\<lparr>coupons := map (\<lambda>r. if r = c then stamped e f c else r) (coupons d)\<rparr>) \<and>
       by_code (run hist (snd (redeem e d f))) (normalized e f) = Some (stamped e f c) \<and>
       redeem e' (run hist (snd (redeem e d f))) f' =
         ((Json (JError (if expires c < today e' then ''expired'' else ''already redeemed'')),
           (if expires c < today e' then 410 else 409)),
          run hist (snd (redeem e d f)))) \<and>
     (\<forall>r \<in> set (coupons d). redeemed_at r \<noteq> None \<longrightarrow> r \<in> set (coupons (run hist d)))"
proof (intro conjI ballI impI)
  assume a: "normalized e f \<noteq> [] \<and> by_code d (normalized e f) = Some c \<and>
      redeemed_at c = None \<and> today e \<le> expires c \<and> normalized e' f' = normalized e f"
  let ?d1 = "commit_coupon (stamped e f c) d"
  from a have bc: "by_code d (normalized e f) = Some c" by simp
  then have m: "c \<in> set (coupons d)" and k: "code c = Some (normalized e f)"
    by (simp_all add: by_code_Some)
  have r: "redeem e d f = ((Json (JRedeemed (Some (normalized e f))), 200), ?d1)"
    using a by (intro redeem_active) simp_all
  have cs: "coupons ?d1 = map (\<lambda>r. if r = c then stamped e f c else r) (coupons d)"
    using assms m by (intro commit_coupon_same) (simp_all add: wf_db_def stamped_fields)
  then have "?d1 = d\<lparr>coupons := map (\<lambda>r. if r = c then stamped e f c else r) (coupons d)\<rparr>"
    by (simp add: commit_coupon_def)
  with r show "redeem e d f =
       ((Json (JRedeemed (Some (normalized e f))), 200),
        d\<lparr>coupons := map (\<lambda>r. if r = c then stamped e f c else r) (coupons d)\<rparr>)"
    by simp
  have wf1: "wf_db ?d1"
    using assms m by (rule commit_coupon_wf) (simp_all add: stamped_fields)
  have "stamped e f c \<in> set (coupons ?d1)"
    using assms m by (rule commit_coupon_member(1)) (simp add: stamped_fields)
  then have "stamped e f c \<in> set (coupons (run hist ?d1))"
    using wf1 by (intro run_keeps_redeemed) (simp_all add: stamped_fields)
  moreover have "wf_db (run hist ?d1)" using wf1 by (rule run_wf)
  ultimately have b: "by_code (run hist ?d1) (normalized e f) = Some (stamped e f c)"
    using k by (intro by_code_member) (simp_all add: stamped_fields)
  with r show "by_code (run hist (snd (redeem e d f))) (normalized e f) = Some (stamped e f c)"
    by simp
  have "redeem e' (run hist ?d1) f' =
     ((Json (JError (if expires (stamped e f c) < today e' then ''expired''
                     else ''already redeemed'')),
       (if expires (stamped e f c) < today e' then 410 else 409)), run hist ?d1)"
    using a b by (intro redeem_redeemed) (simp_all add: stamped_fields)
  with r show "redeem e' (run hist (snd (redeem e d f))) f' =
       ((Json (JError (if expires c < today e' then ''expired'' else ''already redeemed'')),
         (if expires c < today e' then 410 else 409)),
        run hist (snd (redeem e d f)))"
    by (simp add: stamped_fields)
next
  fix r assume "r \<in> set (coupons d)" "redeemed_at r \<noteq> None"
  with assms show "r \<in> set (coupons (run hist d))" by (rule run_keeps_redeemed)
qed

text \<open>
  Alice redeems \<^verbatim>\<open>CHIP-ABABABABAB\<close> on 2025-11-01 and succeeds. A second attempt on the
  same day is refused and writes nothing; a third one on that day answers
  \<^verbatim>\<open>already redeemed\<close>, and one on 2025-11-06 answers \<^verbatim>\<open>expired\<close>. The redeemed row is
  still in the store after a further claim and a further attempt.
\<close>

theorem redeem_exactly_once_witness:
  "wf_db db_claimed \<and>
   by_code db_claimed (normalized env_nov1 form_ab) = Some coupon_ab \<and>
   redeemed_at coupon_ab = None \<and> today env_nov1 \<le> expires coupon_ab \<and>
   redeem env_nov1 db_claimed form_ab =
     ((Json (JRedeemed (Some (lit ''CHIP-ABABABABAB''))), 200), db_redeemed) \<and>
   redeem env_nov1 (run [(env_nov1, Redeem form_ab)] (snd (redeem env_nov1 db_claimed form_ab)))
       form_ab
     = ((Json (JError ''already redeemed''), 409), db_redeemed) \<and>
   redeem (env_nov1\<lparr>today := 739561\<rparr>)
       (run [(env_nov1, Redeem form_ab)] (snd (redeem env_nov1 db_claimed form_ab))) form_ab
     = ((Json (JError ''expired''), 410), db_redeemed) \<and>
   wf_db db_redeemed \<and>
   coupon_ab\<lparr>redeemed_at := Some 1000, redeemed_by := Some (lit ''Alice'')\<rparr>
     \<in> set (coupons (run [(env_cd, ClaimOffer 1), (env_cd, Redeem form_ab)] db_redeemed))"
proof -
  have n: "normalized env_nov1 form_ab \<noteq> []"
    unfolding normalized_form_ab by (simp add: lit_def)
  have b: "by_code db_claimed (normalized env_nov1 form_ab) = Some coupon_ab"
    unfolding normalized_form_ab by (rule by_code_db_claimed)
  have u: "redeemed_at coupon_ab = None" by (simp add: coupon_ab_def)
  have a: "today env_nov1 \<le> expires coupon_ab" by (simp add: env_nov1_clock coupon_ab_def)
  have s: "normalized e' form_ab = normalized env_nov1 form_ab" for e' :: env
    by (simp only: normalized_form_ab)
  have x: "expires coupon_ab = 739560" by (simp add: coupon_ab_def)
  have r: "run [(env_nov1, Redeem form_ab)] (snd (redeem env_nov1 db_claimed form_ab)) = db_redeemed"
    by (simp add: redeem_first handle_def redeem_second_same_day)
  have t: "redeem env_nov1 db_claimed form_ab =
         ((Json (JRedeemed (Some (normalized env_nov1 form_ab))), 200),
          db_claimed\<lparr>coupons := map (\<lambda>r. if r = coupon_ab
               then stamped env_nov1 form_ab coupon_ab else r) (coupons db_claimed)\<rparr>) \<and>
       redeem e' (run [(env_nov1, Redeem form_ab)] (snd (redeem env_nov1 db_claimed form_ab)))
           form_ab =
         ((Json (JError (if expires coupon_ab < today e' then ''expired''
                         else ''already redeemed'')),
           (if expires coupon_ab < today e' then 410 else 409)),
          run [(env_nov1, Redeem form_ab)] (snd (redeem env_nov1 db_claimed form_ab)))"
    for e' :: env
    using redeem_exactly_once [OF wf_db_claimed, of env_nov1 form_ab coupon_ab e' form_ab
        "[(env_nov1, Redeem form_ab)]"] n b u a s [of e']
    by blast
  from t [of env_nov1]
  have 0: "redeem env_nov1 db_claimed form_ab =
     ((Json (JRedeemed (Some (lit ''CHIP-ABABABABAB''))), 200), db_redeemed)"
    by (simp only: redeem_first)
  from t [of env_nov1]
  have 1: "redeem env_nov1 db_redeemed form_ab
      = ((Json (JError ''already redeemed''), 409), db_redeemed)"
    unfolding r x by (simp add: env_nov1_clock)
  from t [of "env_nov1\<lparr>today := 739561\<rparr>"]
  have 2: "redeem (env_nov1\<lparr>today := 739561\<rparr>) db_redeemed form_ab
      = ((Json (JError ''expired''), 410), db_redeemed)"
    unfolding r x by simp
  have m: "coupon_ab\<lparr>redeemed_at := Some 1000, redeemed_by := Some (lit ''Alice'')\<rparr>
      \<in> set (coupons db_redeemed)"
    by (simp add: db_redeemed_def)
  have q: "redeemed_at (coupon_ab\<lparr>redeemed_at := Some 1000, redeemed_by := Some (lit ''Alice'')\<rparr>)
      \<noteq> None"
    by simp
  from redeem_exactly_once [OF wf_db_redeemed, of env_cd form_ab coupon_ab env_cd form_ab
      "[(env_cd, ClaimOffer 1), (env_cd, Redeem form_ab)]"] m q
  have 3: "coupon_ab\<lparr>redeemed_at := Some 1000, redeemed_by := Some (lit ''Alice'')\<rparr>
     \<in> set (coupons (run [(env_cd, ClaimOffer 1), (env_cd, Redeem form_ab)] db_redeemed))"
    by blast
  from wf_db_claimed wf_db_redeemed b u a 0 1 2 3 show ?thesis unfolding r by blast
qed

text \<open>
  C2 as it is worded promises a conflict error for the second attempt. The coupon below
  is redeemed on 2025-11-01 and presented again on 2025-11-06, the day after it expired:
  the second attempt answers \<^verbatim>\<open>expired\<close> with 410, not a conflict.
\<close>

theorem redeem_twice_counterexample:
  "snd (fst (redeem env_nov1 db_claimed form_ab)) = 200 \<and>
   fst (redeem (env_nov1\<lparr>today := 739561\<rparr>) (snd (redeem env_nov1 db_claimed form_ab)) form_ab)
     = (Json (JError ''expired''), 410)"
proof -
  have n: "lit ''CHIP-ABABABABAB'' \<noteq> []" by (simp add: lit_def)
  have 1: "snd (fst (redeem env_nov1 db_claimed form_ab)) = 200"
    by (simp add: redeem_first)
  have s: "snd (redeem env_nov1 db_claimed form_ab) = db_redeemed"
    by (simp add: redeem_first)
  have 2: "redeem (env_nov1\<lparr>today := 739561\<rparr>) db_redeemed form_ab
      = ((Json (JError ''expired''), 410), db_redeemed)"
    unfolding redeem_by_cases normalized_form_ab by_code_db_redeemed
    using n by (simp add: coupon_ab_def)
  show ?thesis unfolding s using 1 2 by simp
qed

section \<open>Expiry\<close>

text \<open>
  C8. A coupon is expired exactly when today's date is strictly after its stored
  expiration date; a coupon expiring today is not expired; and the answer is a function
  of these two dates alone: two coupons with the same expiration date, asked on the same
  day, agree, whatever their other fields and the rest of the environment.
\<close>

theorem is_expired_strictly_after:
  "(is_expired e c \<longleftrightarrow> expires c < today e) \<and>
   (expires c = today e \<longrightarrow> \<not> is_expired e c) \<and>
   (today e' = today e \<and> expires c' = expires c \<longrightarrow> is_expired e' c' = is_expired e c)"
  by (simp add: is_expired_def)

theorem is_expired_strictly_after_witness:
  "expires coupon_ab = today (env_nov1\<lparr>today := 739560\<rparr>) \<and>
   \<not> is_expired (env_nov1\<lparr>today := 739560\<rparr>) coupon_ab \<and>
   is_expired (env_nov1\<lparr>today := 739561\<rparr>) coupon_ab \<and>
   is_expired (env_nov1\<lparr>today := 739561, utcnow := 5\<rparr>) (coupon_ab\<lparr>redeemed_at := Some 3\<rparr>)"
  using is_expired_strictly_after [of "env_nov1\<lparr>today := 739560\<rparr>" coupon_ab
      "env_nov1\<lparr>today := 739560\<rparr>" coupon_ab]
    is_expired_strictly_after [of "env_nov1\<lparr>today := 739561\<rparr>" coupon_ab
      "env_nov1\<lparr>today := 739561, utcnow := 5\<rparr>" "coupon_ab\<lparr>redeemed_at := Some 3\<rparr>"]
  by (simp add: coupon_ab_def)

section \<open>Code generation\<close>

text \<open>
  C7 asks for a token of exactly the requested length. For the default prefix and the
  odd length 9 the function reads \<open>9 div 2 = 4\<close> bytes, so whatever the entropy the token
  has 8 characters and the slice \<^verbatim>\<open>[:9]\<close> has nothing to cut.
\<close>

theorem generate_code_odd_length:
  "\<exists>tok rng'. generate_code tbl (lit ''COUP'') 9 rng = Inr (lit ''COUP-'' @ tok, rng') \<and>
     length tok = 8"
  using generate_code_nonneg [of 9 tbl "lit ''COUP''" rng]
  by (simp add: length_upper_hex lit_def)

section \<open>The claim operation\<close>

text \<open>
  C6, as the code has it. For every offer identifier that no stored offer carries, the
  store after \<^verbatim>\<open>claim_offer\<close> is the store before it, so no coupon row is created; and
  if the identifier is below \<open>2 ^ 63\<close>, the request aborts with not-found, which is
  status 404.
\<close>

theorem claim_unknown_offer:
  assumes "Some i \<notin> set (map offer_pk (offers d))"
  shows "snd (claim_offer e d i) = d \<and>
     (i < 2 ^ 63 \<longrightarrow>
        claim_offer e d i = (Inl NotFound, d) \<and> http_status (fst (claim_offer e d i)) = 404)"
proof (cases d i rule: get_offer_cases)
  case 1
  then show ?thesis by (simp add: claim_offer_overflow)
next
  case 2
  then show ?thesis by (simp add: claim_offer_missing http_status_def)
next
  case (3 ofr)
  with assms show ?thesis by force
qed

theorem claim_unknown_offer_witness:
  "Some 7 \<notin> set (map offer_pk (offers db_claimed)) \<and> (7 :: nat) < 2 ^ 63 \<and>
   claim_offer env_nov1 db_claimed 7 = (Inl NotFound, db_claimed) \<and>
   http_status (fst (claim_offer env_nov1 db_claimed 7)) = 404"
proof -
  have h: "Some 7 \<notin> set (map offer_pk (offers db_claimed))"
    by (simp add: db_claimed_def chipotle_def)
  have b: "(7 :: nat) < 2 ^ 63" by simp
  show ?thesis using h b claim_unknown_offer [OF h, of env_nov1] by blast
qed

text \<open>
  C6 as it is worded promises 404 for every identifier that is not stored. The route
  accepts the number \<open>2 ^ 63\<close>, which no stored offer carries; the lookup cannot bind it
  and raises \<^verbatim>\<open>OverflowError\<close>, and the request ends with status 500.
\<close>

theorem claim_unknown_offer_counterexample:
  "Some 9223372036854775808 \<notin> set (map offer_pk (offers db_claimed)) \<and>
   claim_offer env_nov1 db_claimed 9223372036854775808 = (Inl OverflowError, db_claimed) \<and>
   http_status (fst (claim_offer env_nov1 db_claimed 9223372036854775808)) = 500"
proof -
  have "get_offer db_claimed 9223372036854775808 = Inl OverflowError"
    by (simp add: get_offer_def)
  then have "claim_offer env_nov1 db_claimed 9223372036854775808 = (Inl OverflowError, db_claimed)"
    by (rule claim_offer_overflow)
  then show ?thesis by (simp add: http_status_def db_claimed_def chipotle_def)
qed

text \<open>
  C5. A claim that succeeds was made for a stored offer with that identifier; it appends
  exactly one coupon row and changes nothing else; the row carries the offer's
  restaurant, description and expiration date as they are at that moment, stored in the
  row itself, and is not redeemed; and the answer is status 200 with the JSON object of
  the row's code, the two URLs built from that code, and the row's expiration date in
  ISO format.
\<close>

theorem claim_snapshots_offer:
  assumes "claim_offer e d i = (Inr resp, d')"
  shows "\<exists>ofr c k. ofr \<in> set (offers d) \<and> offer_pk ofr = Some i \<and>
      coupons d' = coupons d @ [c] \<and> offers d' = offers d \<and>
      offer_id c = Some i \<and> restaurant c = offer_restaurant ofr \<and>
      description c = offer_description ofr \<and> expires c = offer_expires ofr \<and>
      redeemed_at c = None \<and> code c = Some k \<and>
      resp = (Json (JClaimed k (url_for e (ViewCoupon k)) (url_for e (CouponQr k))
                      (isoformat e (expires c))), 200)"
proof -
  from assms obtain ofr k
    where "ofr \<in> set (offers d)" "offer_pk ofr = Some i"
      and "resp = (Json (JClaimed k (url_for e (ViewCoupon k)) (url_for e (CouponQr k))
                        (isoformat e (offer_expires ofr))), 200)"
      and "d' = d\<lparr>coupons := coupons d @ [issued e ofr d k]\<rparr>"
    by (rule claim_offer_ok)
  then show ?thesis
    by (intro exI [of _ ofr] exI [of _ "issued e ofr d k"] exI [of _ k]) (simp add: issued_def)
qed

text \<open>The seeded Chipotle offer, claimed on 2025-11-01.\<close>

theorem claim_snapshots_offer_witness:
  "claim_offer env_nov1 db_seeded 1 =
     (Inr (Json (JClaimed (lit ''CHIP-ABABABABAB'') (lit ''/coupon/CHIP-ABABABABAB'')
                   (lit ''/coupon/CHIP-ABABABABAB/qr.png'') (lit ''2025-11-05'')), 200),
      db_claimed) \<and>
   (\<exists>c. coupons db_claimed = coupons db_seeded @ [c] \<and>
      restaurant c = lit ''Chipotle'' \<and> description c = lit ''Free chips'' \<and>
      expires c = 739560 \<and> code c = Some (lit ''CHIP-ABABABABAB''))"
proof -
  from claim_snapshots_offer [OF claim_seeded]
  have "\<exists>c. coupons db_claimed = coupons db_seeded @ [c] \<and>
      restaurant c = lit ''Chipotle'' \<and> description c = lit ''Free chips'' \<and>
      expires c = 739560 \<and> code c = Some (lit ''CHIP-ABABABABAB'')"
    by (auto simp: db_seeded_def chipotle_def)
  with claim_seeded show ?thesis by blast
qed

text \<open>
  C4. For an offer that exists, \<^verbatim>\<open>claim_offer\<close> draws candidate codes one after the other,
  ten at most, and issues the coupon under the first one that is not stored yet: its
  answer and the row it stores are those of that candidate. If all ten are stored
  already, the loop does not fail: it ends with the code unset, the handler goes on to
  insert a coupon whose code is null, the store refuses any such row, and the request
  ends in that write failure (status 500) with the store unchanged.
\<close>

theorem claim_retries_then_write_failure:
  assumes "get_offer d i = Inr (Some ofr)"
  shows "(let tbl = unicode_upper e;
          prefix = upper tbl (take 4 (offer_restaurant ofr));
          cs = candidates 10 tbl prefix (urandom e)
      in
      length cs = 10 \<and>
      claim_offer e d i =
        (case find (\<lambda>k. by_code d k = None) cs of
           Some k \<Rightarrow>
             (Inr (Json (JClaimed k (url_for e (ViewCoupon k)) (url_for e (CouponQr k))
                           (isoformat e (offer_expires ofr))), 200),
              d\<lparr>coupons := coupons d @ [issued e ofr d k]\<rparr>)
         | None \<Rightarrow> (Inl IntegrityError, d)) \<and>
      (find (\<lambda>k. by_code d k = None) cs = None \<longrightarrow>
         pick_code 10 tbl prefix d (urandom e) = Inr None \<and>
         (\<forall>c. code c = None \<longrightarrow> insert_coupon e c d = Inl IntegrityError) \<and>
         http_status (fst (claim_offer e d i)) = 500))"
proof -
  let ?cs = "candidates 10 (unicode_upper e)
      (upper (unicode_upper e) (take 4 (offer_restaurant ofr))) (urandom e)"
  have 1: "length ?cs = 10" by (rule length_candidates)
  have 2: "claim_offer e d i =
        (case find (\<lambda>k. by_code d k = None) ?cs of
           Some k \<Rightarrow>
             (Inr (Json (JClaimed k (url_for e (ViewCoupon k)) (url_for e (CouponQr k))
                           (isoformat e (offer_expires ofr))), 200),
              d\<lparr>coupons := coupons d @ [issued e ofr d k]\<rparr>)
         | None \<Rightarrow> (Inl IntegrityError, d))"
    by (simp add: claim_offer_found [OF assms] split: option.splits)
  have 3: "pick_code 10 (unicode_upper e)
        (upper (unicode_upper e) (take 4 (offer_restaurant ofr))) d (urandom e) = Inr None \<and>
      (\<forall>c. code c = None \<longrightarrow> insert_coupon e c d = Inl IntegrityError) \<and>
      http_status (fst (claim_offer e d i)) = 500"
    if "find (\<lambda>k. by_code d k = None) ?cs = None"
    using that by (simp add: pick_code_candidates claim_offer_found [OF assms]
        insert_coupon_def http_status_def)
  from 1 2 3 show ?thesis unfolding Let_def by blast
qed

text \<open>
  On the store that holds \<^verbatim>\<open>CHIP-ABABABABAB\<close>: when the entropy gives that code twice and
  \<^verbatim>\<open>CHIP-CDCDCDCDCD\<close> from the third round on, the claim succeeds under the latter; when
  the entropy is stuck at \<^verbatim>\<open>0xAB\<close>, all ten candidates are stored and the claim ends in
  the write failure.
\<close>

theorem claim_retries_then_write_failure_witness:
  "get_offer db_claimed 1 = Inr (Some chipotle) \<and>
   candidates 10 (unicode_upper env_ab_ab_cd) (lit ''CHIP'') (urandom env_ab_ab_cd) =
     lit ''CHIP-ABABABABAB'' # lit ''CHIP-ABABABABAB'' # replicate 8 (lit ''CHIP-CDCDCDCDCD'') \<and>
   by_code db_claimed (lit ''CHIP-ABABABABAB'') = Some coupon_ab \<and>
   by_code db_claimed (lit ''CHIP-CDCDCDCDCD'') = None \<and>
   claim_offer env_ab_ab_cd db_claimed 1 =
     (Inr (Json (JClaimed (lit ''CHIP-CDCDCDCDCD'') (lit ''/coupon/CHIP-CDCDCDCDCD'')
                   (lit ''/coupon/CHIP-CDCDCDCDCD/qr.png'') (lit ''2025-11-05'')), 200),
      db_two) \<and>
   candidates 10 (unicode_upper env_nov1) (lit ''CHIP'') (urandom env_nov1) =
     replicate 10 (lit ''CHIP-ABABABABAB'') \<and>
   pick_code 10 (unicode_upper env_nov1) (lit ''CHIP'') db_claimed (urandom env_nov1) = Inr None \<and>
   claim_offer env_nov1 db_claimed 1 = (Inl IntegrityError, db_claimed)"
proof -
  note a = claim_retries_then_write_failure [OF get_offer_claimed, of env_ab_ab_cd,
      unfolded Let_def prefix_chipotle find_ab_ab_cd]
  have i: "issued env_ab_ab_cd chipotle db_claimed (lit ''CHIP-CDCDCDCDCD'') = coupon_cd"
    by (simp add: issued_def next_pk_def db_claimed_def coupon_ab_def coupon_cd_def chipotle_def
        env_ab_ab_cd_def env_nov1_def)
  have v: "url_for env_ab_ab_cd (ViewCoupon (lit ''CHIP-CDCDCDCDCD'')) =
        lit ''/coupon/CHIP-CDCDCDCDCD''"
      "url_for env_ab_ab_cd (CouponQr (lit ''CHIP-CDCDCDCDCD'')) =
        lit ''/coupon/CHIP-CDCDCDCDCD/qr.png''"
      "isoformat env_ab_ab_cd (offer_expires chipotle) = lit ''2025-11-05''"
    by (simp_all add: env_ab_ab_cd_def env_nov1_def chipotle_def lit_def)
  have t: "db_claimed\<lparr>coupons := coupons db_claimed @ [coupon_cd]\<rparr> = db_two"
    by (simp add: db_claimed_def db_two_def)
  from a have "claim_offer env_ab_ab_cd db_claimed 1 =
     (Inr (Json (JClaimed (lit ''CHIP-CDCDCDCDCD'')
                   (url_for env_ab_ab_cd (ViewCoupon (lit ''CHIP-CDCDCDCDCD'')))
                   (url_for env_ab_ab_cd (CouponQr (lit ''CHIP-CDCDCDCDCD'')))
                   (isoformat env_ab_ab_cd (offer_expires chipotle))), 200),
      db_claimed\<lparr>coupons := coupons db_claimed
         @ [issued env_ab_ab_cd chipotle db_claimed (lit ''CHIP-CDCDCDCDCD'')]\<rparr>)"
    by (simp del: One_nat_def)
  then have 1: "claim_offer env_ab_ab_cd db_claimed 1 =
     (Inr (Json (JClaimed (lit ''CHIP-CDCDCDCDCD'') (lit ''/coupon/CHIP-CDCDCDCDCD'')
                   (lit ''/coupon/CHIP-CDCDCDCDCD/qr.png'') (lit ''2025-11-05'')), 200),
      db_two)"
    by (simp only: i v t)
  note b = claim_retries_then_write_failure [OF get_offer_claimed, of env_nov1,
      unfolded Let_def prefix_chipotle claim_all_collide]
  from b have 2: "pick_code 10 (unicode_upper env_nov1) (lit ''CHIP'') db_claimed
        (urandom env_nov1) = Inr None"
    and 3: "claim_offer env_nov1 db_claimed 1 = (Inl IntegrityError, db_claimed)"
    by (simp_all del: One_nat_def)
  from get_offer_claimed candidates_ab_ab_cd by_code_db_claimed by_code_db_claimed_cd 1
    candidates_nov1 2 3
  show ?thesis by blast
qed

text \<open>
  C3. Starting from a store that meets the table constraints, the stored codes are
  pairwise distinct after every history of requests. And every claim that succeeds
  appends a row whose code is set and differs from every code stored before, so that
  the codes are again pairwise distinct.
\<close>

theorem issued_codes_unique:
  assumes "wf_db d"
  shows "distinct (map code (coupons (run hist d))) \<and>
     (\<forall>resp d'. claim_offer e d i = (Inr resp, d') \<longrightarrow>
        (\<exists>c k. coupons d' = coupons d @ [c] \<and> code c = Some k \<and>
               Some k \<notin> set (map code (coupons d)) \<and> distinct (map code (coupons d'))))"
proof (intro conjI allI impI)
  from assms have "wf_db (run hist d)" by (rule run_wf)
  then show "distinct (map code (coupons (run hist d)))" by (simp add: wf_db_def)
next
  fix resp d'
  assume ok: "claim_offer e d i = (Inr resp, d')"
  then obtain ofr k
    where f: "by_code d k = None"
      and d': "d' = d\<lparr>coupons := coupons d @ [issued e ofr d k]\<rparr>"
    by (rule claim_offer_ok)
  from f have new: "Some k \<notin> set (map code (coupons d))" by (simp add: by_code_None_iff)
  from assms new have "distinct (map code (coupons d @ [issued e ofr d k]))"
    by (simp add: wf_db_def issued_def)
  with d' new show "\<exists>c k. coupons d' = coupons d @ [c] \<and> code c = Some k \<and>
               Some k \<notin> set (map code (coupons d)) \<and> distinct (map code (coupons d'))"
    by (intro exI [of _ "issued e ofr d k"] exI [of _ k]) (simp add: issued_def)
qed

text \<open>A second claim of the Chipotle offer, under other entropy, gets a second code.\<close>

theorem issued_codes_unique_witness:
  "wf_db db_claimed \<and>
   distinct (map code (coupons (run [(env_cd, ClaimOffer 1)] db_claimed))) \<and>
   claim_offer env_cd db_claimed 1 =
     (Inr (Json (JClaimed (lit ''CHIP-CDCDCDCDCD'') (lit ''/coupon/CHIP-CDCDCDCDCD'')
                   (lit ''/coupon/CHIP-CDCDCDCDCD/qr.png'') (lit ''2025-11-05'')), 200),
      db_two) \<and>
   (\<exists>c. coupons db_two = coupons db_claimed @ [c] \<and> code c = Some (lit ''CHIP-CDCDCDCDCD'') \<and>
        Some (lit ''CHIP-CDCDCDCDCD'') \<notin> set (map code (coupons db_claimed)))"
proof -
  note t = issued_codes_unique [OF wf_db_claimed, of "[(env_cd, ClaimOffer 1)]" env_cd 1]
  from t have 1: "distinct (map code (coupons (run [(env_cd, ClaimOffer 1)] db_claimed)))"
    by blast
  from t claim_cd have "\<exists>c k. coupons db_two = coupons db_claimed @ [c] \<and> code c = Some k \<and>
      Some k \<notin> set (map code (coupons db_claimed)) \<and> distinct (map code (coupons db_two))"
    by blast
  then have 2: "\<exists>c. coupons db_two = coupons db_claimed @ [c] \<and>
      code c = Some (lit ''CHIP-CDCDCDCDCD'') \<and>
      Some (lit ''CHIP-CDCDCDCDCD'') \<notin> set (map code (coupons db_claimed))"
    by (auto simp: db_two_def db_claimed_def coupon_cd_def)
  from wf_db_claimed 1 2 claim_cd show ?thesis by blast
qed

text \<open>
  C9. A claim, whatever its outcome, leaves the table of offers exactly as it was, and so
  does any number of claims in a row; the coupons stored before are all still there,
  unchanged, with the new ones after them. An offer that is stored is therefore never
  answered with not-found, however many claims came before: no claim is refused on
  account of the offer. Each claim that succeeds adds one row of its own, tied to the
  offer and not redeemed. And whatever the store holds already, as long as one code
  with the offer's prefix is not stored, the claim that draws it succeeds.
\<close>

theorem claim_leaves_offers:
  "offers (snd (claim_offer e d i)) = offers d \<and>
   offers (run (map (\<lambda>(e, j). (e, ClaimOffer j)) cl) d) = offers d \<and>
   (\<exists>cs. coupons (run (map (\<lambda>(e, j). (e, ClaimOffer j)) cl) d) = coupons d @ cs) \<and>
   (Some i \<in> set (map offer_pk (offers d)) \<longrightarrow>
      fst (claim_offer e (run (map (\<lambda>(e, j). (e, ClaimOffer j)) cl) d) i) \<noteq> Inl NotFound) \<and>
   (\<forall>resp d'. claim_offer e d i = (Inr resp, d') \<longrightarrow>
      (\<exists>c. coupons d' = coupons d @ [c] \<and> offer_id c = Some i \<and> redeemed_at c = None)) \<and>
   (\<forall>ofr bs. get_offer d i = Inr (Some ofr) \<and> length bs = 5 \<and>
        by_code d (upper (unicode_upper e) (take 4 (offer_restaurant ofr)) @ lit ''-'' @
                     upper (unicode_upper e) (hex bs)) = None \<longrightarrow>
      (\<exists>resp c. claim_offer (e\<lparr>urandom := (\<lambda>j. bs ! j)\<rparr>) d i
                   = (Inr resp, d\<lparr>coupons := coupons d @ [c]\<rparr>) \<and>
                code c = Some (upper (unicode_upper e) (take 4 (offer_restaurant ofr)) @
                                 lit ''-'' @ upper (unicode_upper e) (hex bs))))"
proof (intro conjI impI allI)
  show "offers (snd (claim_offer e d i)) = offers d" by (rule claim_offer_offers)
  show "offers (run (map (\<lambda>(e, j). (e, ClaimOffer j)) cl) d) = offers d"
    by (rule run_claims_offers)
  show "\<exists>cs. coupons (run (map (\<lambda>(e, j). (e, ClaimOffer j)) cl) d) = coupons d @ cs"
    by (rule run_claims_coupons)
next
  let ?d = "run (map (\<lambda>(e, j). (e, ClaimOffer j)) cl) d"
  assume "Some i \<in> set (map offer_pk (offers d))"
  then have s: "Some i \<in> set (map offer_pk (offers ?d))" by (simp add: run_claims_offers)
  show "fst (claim_offer e ?d i) \<noteq> Inl NotFound"
  proof (cases ?d i rule: get_offer_cases)
    case 1
    then show ?thesis by (simp add: claim_offer_overflow)
  next
    case 2
    then have "find (\<lambda>ofr. offer_pk ofr = Some i) (offers ?d) = None"
      by (simp add: get_offer_def split: if_splits)
    with s show ?thesis by (force simp: find_None_iff)
  next
    case (3 ofr)
    then show ?thesis by (simp add: claim_offer_found split: option.splits)
  qed
next
  fix resp d'
  assume ok: "claim_offer e d i = (Inr resp, d')"
  then obtain ofr k
    where "offer_pk ofr = Some i" and "d' = d\<lparr>coupons := coupons d @ [issued e ofr d k]\<rparr>"
    by (rule claim_offer_ok)
  then show "\<exists>c. coupons d' = coupons d @ [c] \<and> offer_id c = Some i \<and> redeemed_at c = None"
    by (intro exI [of _ "issued e ofr d k"]) (simp add: issued_def)
next
  fix ofr :: Offer and bs :: "byte list"
  let ?k = "upper (unicode_upper e) (take 4 (offer_restaurant ofr)) @ lit ''-'' @
      upper (unicode_upper e) (hex bs)"
  assume a: "get_offer d i = Inr (Some ofr) \<and> length bs = 5 \<and> by_code d ?k = None"
  then have "claim_offer (e\<lparr>urandom := (\<lambda>j. bs ! j)\<rparr>) d i =
     (Inr (Json (JClaimed ?k (url_for e (ViewCoupon ?k)) (url_for e (CouponQr ?k))
                   (isoformat e (offer_expires ofr))), 200),
      d\<lparr>coupons := coupons d @ [issued e ofr d ?k]\<rparr>)"
    by (intro claim_offer_free_code) simp_all
  moreover have "code (issued e ofr d ?k) = Some ?k" by (simp add: issued_def)
  ultimately show "\<exists>resp c. claim_offer (e\<lparr>urandom := (\<lambda>j. bs ! j)\<rparr>) d i
                   = (Inr resp, d\<lparr>coupons := coupons d @ [c]\<rparr>) \<and> code c = Some ?k"
    by blast
qed

text \<open>
  The Chipotle offer claimed twice in a row: two coupons, the offer as before, and a
  third claim still finds it; with \<^verbatim>\<open>CHIP-EFEFEFEFEF\<close> unused, the claim that draws the
  bytes \<^verbatim>\<open>0xEF\<close> succeeds on the store of two coupons.
\<close>

theorem claim_leaves_offers_witness:
  "Some 1 \<in> set (map offer_pk (offers db_seeded)) \<and>
   run (map (\<lambda>(e, j). (e, ClaimOffer j)) [(env_nov1, 1), (env_cd, 1)]) db_seeded = db_two \<and>
   offers db_two = offers db_seeded \<and>
   coupons db_two = coupons db_seeded @ [coupon_ab, coupon_cd] \<and>
   fst (claim_offer env_nov1 db_two 1) \<noteq> Inl NotFound \<and>
   (\<exists>c. coupons db_claimed = coupons db_seeded @ [c] \<and> offer_id c = Some 1 \<and>
        redeemed_at c = None) \<and>
   (\<exists>resp c. claim_offer (env_nov1\<lparr>urandom := (\<lambda>j. [0xEF, 0xEF, 0xEF, 0xEF, 0xEF] ! j)\<rparr>)
                  db_two 1 = (Inr resp, db_two\<lparr>coupons := coupons db_two @ [c]\<rparr>) \<and>
              code c = Some (lit ''CHIP-EFEFEFEFEF''))"
proof -
  have g: "Some 1 \<in> set (map offer_pk (offers db_seeded))"
    by (simp add: db_seeded_def chipotle_def)
  note t = claim_leaves_offers [of env_nov1 db_seeded 1 "[(env_nov1, 1), (env_cd, 1)]",
      unfolded run_two_claims]
  from t have 1: "offers db_two = offers db_seeded" by blast
  from t g have 2: "fst (claim_offer env_nov1 db_two 1) \<noteq> Inl NotFound" by blast
  have 3: "coupons db_two = coupons db_seeded @ [coupon_ab, coupon_cd]"
    by (simp add: db_two_def db_seeded_def)
  from t claim_seeded
  have 4: "\<exists>c. coupons db_claimed = coupons db_seeded @ [c] \<and> offer_id c = Some 1 \<and>
        redeemed_at c = None"
    by blast
  have f: "by_code db_two (upper (unicode_upper env_nov1) (take 4 (offer_restaurant chipotle)) @
        lit ''-'' @ upper (unicode_upper env_nov1) (hex [0xEF, 0xEF, 0xEF, 0xEF, 0xEF])) = None"
    unfolding prefix_chipotle hex_ef code_ef by (rule by_code_db_two_ef)
  have l: "length [0xEF, 0xEF, 0xEF, 0xEF, 0xEF :: byte] = 5" by simp
  from claim_leaves_offers [of env_nov1 db_two 1 "[]"] get_offer_two l f
  have "\<exists>resp c. claim_offer (env_nov1\<lparr>urandom := (\<lambda>j. [0xEF, 0xEF, 0xEF, 0xEF, 0xEF] ! j)\<rparr>)
                  db_two 1 = (Inr resp, db_two\<lparr>coupons := coupons db_two @ [c]\<rparr>) \<and>
              code c = Some (upper (unicode_upper env_nov1) (take 4 (offer_restaurant chipotle)) @
                lit ''-'' @ upper (unicode_upper env_nov1) (hex [0xEF, 0xEF, 0xEF, 0xEF, 0xEF]))"
    by blast
  then have 5: "\<exists>resp c. claim_offer (env_nov1\<lparr>urandom := (\<lambda>j. [0xEF, 0xEF, 0xEF, 0xEF, 0xEF] ! j)\<rparr>)
                  db_two 1 = (Inr resp, db_two\<lparr>coupons := coupons db_two @ [c]\<rparr>) \<and>
              code c = Some (lit ''CHIP-EFEFEFEFEF'')"
    unfolding prefix_chipotle hex_ef code_ef by simp
  from g run_two_claims 1 2 3 4 5 show ?thesis by blast
qed

end
